theory Spec2Isabelle
  imports Main "HOL-Library.Sublist"
begin

section \<open>The filtering log of the AdGuard browser extension\<close>

text \<open>
  A shallow embedding of \<^verbatim>\<open>Extension/lib/filter/filtering-log.js\<close>. The module keeps a
  map from tab ids to tab infos, each with an optional array of filtering events, and a
  counter of the opened filtering log pages. Every function of the module becomes a
  function on an explicit state; the calls of \<^verbatim>\<open>adguard.listeners.notifyListeners\<close>
  are recorded, in order, in the state's trace \<open>notified\<close>.
\<close>

subsection \<open>Data\<close>

text \<open>
  A tab as the host hands it over: \<^verbatim>\<open>{tabId, title, url}\<close>. Tab ids are the integers
  of the extension API; \<open>url\<close> may be missing.
\<close>

record tab =
  tabId :: int
  title :: string
  url :: "string option"

text \<open>
  The rules of the filtering engine, told apart by \<^verbatim>\<open>instanceof\<close>. Only a
  \<^verbatim>\<open>UrlFilterRule\<close> carries the four values that \<^verbatim>\<open>appendProperties\<close> reads from it;
  \<open>OtherRule\<close> stands for every other rule object (script rules, plain objects).
\<close>

datatype rule_class =
    ContentFilterRule
  | CssFilterRule
  | UrlFilterRule (url_whiteListRule: bool) (isCspRule: bool)
      (url_cspDirective: "string option") (getCookieOption: "string option")
  | OtherRule

record filter_rule =
  rule_filterId :: int
  rule_ruleText :: string
  rule_class :: rule_class
  rule_stealthActions :: "int option"

text \<open>
  The object that \<^verbatim>\<open>appendProperties\<close> fills: every property is optional, a property
  that was never set reads as \<open>None\<close>.
\<close>

record rule_snapshot =
  filterId :: "int option"
  ruleText :: "string option"
  contentRule :: "bool option"
  cssRule :: "bool option"
  whiteListRule :: "bool option"
  cspRule :: "bool option"
  cspDirective :: "string option"
  cookieRule :: "bool option"
  replaceRule :: "bool option"
  isModifyingCookieRule :: "bool option"

record event =
  eventId :: "int option"
  requestUrl :: "string option"
  requestDomain :: "string option"
  frameUrl :: "string option"
  frameDomain :: "string option"
  requestType :: "string option"
  requestThirdParty :: "bool option"
  element :: "string option"
  cookieName :: "string option"
  cookieValue :: "string option"
  requestRule :: "rule_snapshot option"
  replaceRules :: "rule_snapshot list option"
  stealthActions :: "int option"

text \<open>
  The value of \<^verbatim>\<open>tab.url && tab.url.indexOf(extensionURL) === 0\<close>: the falsy url itself
  (undefined or the empty string) or the boolean of the comparison.
\<close>

datatype extension_flag = FlagUndefined | FlagEmptyString | FlagBool bool

record tabInfo =
  info_tabId :: int
  info_title :: string
  isExtensionTab :: extension_flag
  filteringEvents :: "event list option"

datatype notification =
    TAB_ADDED tabInfo
  | TAB_CLOSE tabInfo
  | TAB_UPDATE tabInfo
  | TAB_RESET tabInfo
  | LOG_EVENT_ADDED tabInfo event
  | LOG_EVENT_UPDATED tabInfo event

text \<open>The argument \<^verbatim>\<open>element\<close> of \<^verbatim>\<open>addCosmeticEvent\<close>: a string or a DOM node.\<close>

datatype element_arg = ElementString string | ElementNode string

text \<open>
  What the module takes from the rest of the extension: constants of \<^verbatim>\<open>adguard\<close> and
  the utilities of \<^verbatim>\<open>adguard.utils\<close>, none of which is defined in this file. The last
  field belongs to the language: \<open>parseIntExponent k\<close> is what \<^verbatim>\<open>parseInt(key, 10)\<close>
  reads from the key of a number \<open>k\<close> that JavaScript writes in exponent notation, such
  as 1 from the key \<^verbatim>\<open>1e+21\<close>.
\<close>

record env =
  backgroundTabId :: int
  backgroundTabTitle :: string
  hasBackgroundTab :: bool
  extensionURL :: string
  getDomainName :: "string \<Rightarrow> string option"
  isThirdPartyRequest :: "string \<Rightarrow> string \<Rightarrow> bool"
  elementToString :: "string \<Rightarrow> string"
  parseIntExponent :: "int \<Rightarrow> int"

record log_state =
  tabsInfoMap :: "(int \<times> tabInfo) list"
  openedFilteringLogsPage :: int
  notified :: "notification list"

subsection \<open>The object \<^verbatim>\<open>tabsInfoMap\<close>\<close>

text \<open>
  \<^verbatim>\<open>tabsInfoMap\<close> is an object without prototype whose keys are tab ids. It is kept as
  an association list in the order in which JavaScript enumerates own properties
  (\<^verbatim>\<open>Object.keys\<close>, \<^verbatim>\<open>for ... in\<close>): the array indices in ascending order first, then
  the other keys in the order of their creation.
\<close>

definition isArrayIndex :: "int \<Rightarrow> bool" where
  "isArrayIndex k \<longleftrightarrow> 0 \<le> k \<and> k < 4294967295"

fun insertKey :: "int \<Rightarrow> 'v \<Rightarrow> (int \<times> 'v) list \<Rightarrow> (int \<times> 'v) list" where
  "insertKey k v [] = [(k, v)]"
| "insertKey k v ((k', v') # m) =
     (if isArrayIndex k \<and> (\<not> isArrayIndex k' \<or> k < k')
      then (k, v) # (k', v') # m
      else (k', v') # insertKey k v m)"

fun replaceKey :: "int \<Rightarrow> 'v \<Rightarrow> (int \<times> 'v) list \<Rightarrow> (int \<times> 'v) list" where
  "replaceKey k v [] = []"
| "replaceKey k v ((k', v') # m) =
     (if k' = k then (k, v) # m else (k', v') # replaceKey k v m)"

definition setKey :: "int \<Rightarrow> 'v \<Rightarrow> (int \<times> 'v) list \<Rightarrow> (int \<times> 'v) list" where
  "setKey k v m = (case map_of m k of None \<Rightarrow> insertKey k v m | Some _ \<Rightarrow> replaceKey k v m)"

definition deleteKey :: "int \<Rightarrow> (int \<times> 'v) list \<Rightarrow> (int \<times> 'v) list" where
  "deleteKey k m = filter (\<lambda>p. fst p \<noteq> k) m"

text \<open>
  A tab id becomes a key by \<^verbatim>\<open>String\<close>: an integer of magnitude below \<open>10\<^sup>2\<^sup>1\<close> is
  written as its decimal numeral, a greater one in exponent notation.
  \<^verbatim>\<open>Object.keys(tabsInfoMap).map(id => parseInt(id, 10))\<close> reads the keys back as numbers:
  a decimal numeral gives the id again, exponent notation gives another number.
\<close>

definition decimalKey :: "int \<Rightarrow> bool" where
  "decimalKey k \<longleftrightarrow> \<bar>k\<bar> < 1000000000000000000000"

definition keyToInt :: "env \<Rightarrow> int \<Rightarrow> int" where
  "keyToInt e k = (if decimalKey k then k else parseIntExponent e k)"

definition notifyListeners :: "notification \<Rightarrow> log_state \<Rightarrow> log_state" where
  "notifyListeners n s = s\<lparr>notified := notified s @ [n]\<rparr>"

text \<open>
  A tab info is an object shared between the map and the code that holds it: a write to
  one of its properties is a write to the entry of the map under the tab's key.
\<close>

definition storeTabInfo :: "int \<Rightarrow> tabInfo \<Rightarrow> log_state \<Rightarrow> log_state" where
  "storeTabInfo k ti s = s\<lparr>tabsInfoMap := replaceKey k ti (tabsInfoMap s)\<rparr>"

subsection \<open>The registry of tabs\<close>

definition REQUESTS_SIZE_PER_TAB :: nat where
  "REQUESTS_SIZE_PER_TAB = 1000"

definition backgroundTab :: "env \<Rightarrow> tabInfo" where
  "backgroundTab e =
     \<lparr>info_tabId = backgroundTabId e, info_title = backgroundTabTitle e,
      isExtensionTab = FlagUndefined, filteringEvents = None\<rparr>"

definition initialState :: "env \<Rightarrow> log_state" where
  "initialState e =
     \<lparr>tabsInfoMap = (if hasBackgroundTab e then [(backgroundTabId e, backgroundTab e)] else []),
      openedFilteringLogsPage = 0,
      notified = []\<rparr>"

definition extensionFlag :: "env \<Rightarrow> tab \<Rightarrow> extension_flag" where
  "extensionFlag e t =
     (case url t of
        None \<Rightarrow> FlagUndefined
      | Some u \<Rightarrow> if u = [] then FlagEmptyString else FlagBool (prefix (extensionURL e) u))"

definition updateTabInfo :: "env \<Rightarrow> tab \<Rightarrow> log_state \<Rightarrow> tabInfo \<times> log_state" where
  "updateTabInfo e t s =
     (let tabInfo =
            (case map_of (tabsInfoMap s) (tabId t) of
               Some ti \<Rightarrow> ti\<lparr>info_tabId := tabId t, info_title := title t,
                            isExtensionTab := extensionFlag e t\<rparr>
             | None \<Rightarrow> \<lparr>info_tabId = tabId t, info_title = title t,
                         isExtensionTab = extensionFlag e t, filteringEvents = None\<rparr>)
      in (tabInfo, s\<lparr>tabsInfoMap := setKey (tabId t) tabInfo (tabsInfoMap s)\<rparr>))"

definition addTab :: "env \<Rightarrow> tab \<Rightarrow> log_state \<Rightarrow> log_state" where
  "addTab e t s =
     (if tabId t = backgroundTabId e then s
      else (let (tabInfo, s') = updateTabInfo e t s
            in notifyListeners (TAB_ADDED tabInfo) s'))"

definition removeTabById :: "env \<Rightarrow> int \<Rightarrow> log_state \<Rightarrow> log_state" where
  "removeTabById e k s =
     (if k = backgroundTabId e then s
      else (let s' = (case map_of (tabsInfoMap s) k of
                        Some tabInfo \<Rightarrow> notifyListeners (TAB_CLOSE tabInfo) s
                      | None \<Rightarrow> s)
            in s'\<lparr>tabsInfoMap := deleteKey k (tabsInfoMap s')\<rparr>))"

definition updateTab :: "env \<Rightarrow> tab \<Rightarrow> log_state \<Rightarrow> log_state" where
  "updateTab e t s =
     (if tabId t = backgroundTabId e then s
      else (let (tabInfo, s') = updateTabInfo e t s
            in notifyListeners (TAB_UPDATE tabInfo) s'))"

subsection \<open>Rule snapshots\<close>

definition emptyObject :: rule_snapshot where
  "emptyObject =
     \<lparr>filterId = None, ruleText = None, contentRule = None, cssRule = None,
      whiteListRule = None, cspRule = None, cspDirective = None, cookieRule = None,
      replaceRule = None, isModifyingCookieRule = None\<rparr>"

text \<open>\<^verbatim>\<open>!!s\<close> for a string that may be missing.\<close>

definition truthyString :: "string option \<Rightarrow> bool" where
  "truthyString v = (case v of None \<Rightarrow> False | Some s \<Rightarrow> s \<noteq> [])"

definition appendProperties :: "rule_snapshot \<Rightarrow> filter_rule \<Rightarrow> rule_snapshot" where
  "appendProperties destinationRule sourceRule =
     (let d = destinationRule\<lparr>filterId := Some (rule_filterId sourceRule),
                              ruleText := Some (rule_ruleText sourceRule)\<rparr>
      in case rule_class sourceRule of
           ContentFilterRule \<Rightarrow> d\<lparr>contentRule := Some True\<rparr>
         | CssFilterRule \<Rightarrow> d\<lparr>cssRule := Some True\<rparr>
         | UrlFilterRule w c dir co \<Rightarrow>
             d\<lparr>whiteListRule := Some w, cspRule := Some c, cspDirective := dir,
               cookieRule := Some (truthyString co)\<rparr>
         | OtherRule \<Rightarrow> d)"

definition addRuleToFilteringEvent :: "event \<Rightarrow> filter_rule \<Rightarrow> event" where
  "addRuleToFilteringEvent filteringEvent rule =
     filteringEvent\<lparr>requestRule := Some (appendProperties emptyObject rule)\<rparr>"

definition addReplaceRulesToFilteringEvent :: "event \<Rightarrow> filter_rule list \<Rightarrow> event" where
  "addReplaceRulesToFilteringEvent filteringEvent rules =
     filteringEvent\<lparr>requestRule := Some (emptyObject\<lparr>replaceRule := Some True\<rparr>),
                    replaceRules := Some (map (appendProperties emptyObject) rules)\<rparr>"

subsection \<open>Recording events\<close>

text \<open>\<^verbatim>\<open>array.splice(1, 1)\<close>: drops the element at index 1, if there is one.\<close>

definition splice_1_1 :: "'a list \<Rightarrow> 'a list" where
  "splice_1_1 xs = take 1 xs @ drop 2 xs"

text \<open>
  What \<^verbatim>\<open>pushFilteringEvent\<close> does to \<^verbatim>\<open>tabInfo.filteringEvents\<close>: the array is created
  when it is missing, the event is pushed, and an array longer than
  \<^verbatim>\<open>REQUESTS_SIZE_PER_TAB\<close> loses its element 1.
\<close>

definition pushEvent :: "event list option \<Rightarrow> event \<Rightarrow> event list" where
  "pushEvent buf ev =
     (let events = (case buf of None \<Rightarrow> [] | Some es \<Rightarrow> es) @ [ev]
      in if length events > REQUESTS_SIZE_PER_TAB then splice_1_1 events else events)"

text \<open>
  \<^verbatim>\<open>pushFilteringEvent(tabInfo, filteringEvent)\<close>, where \<open>k\<close> is the key of
  \<^verbatim>\<open>tabsInfoMap\<close> under which the caller found \<open>tabInfo\<close>.
\<close>

definition pushFilteringEvent :: "int \<Rightarrow> tabInfo \<Rightarrow> event \<Rightarrow> log_state \<Rightarrow> log_state" where
  "pushFilteringEvent k tabInfo filteringEvent s =
     (let tabInfo' = tabInfo\<lparr>filteringEvents :=
                        Some (pushEvent (filteringEvents tabInfo) filteringEvent)\<rparr>
      in notifyListeners (LOG_EVENT_ADDED tabInfo' filteringEvent)
           (storeTabInfo k tabInfo' s))"

definition emptyEvent :: event where
  "emptyEvent =
     \<lparr>eventId = None, requestUrl = None, requestDomain = None, frameUrl = None,
      frameDomain = None, requestType = None, requestThirdParty = None, element = None,
      cookieName = None, cookieValue = None, requestRule = None, replaceRules = None,
      stealthActions = None\<rparr>"

definition getFilteringInfoByTabId :: "log_state \<Rightarrow> int \<Rightarrow> tabInfo option" where
  "getFilteringInfoByTabId s k = map_of (tabsInfoMap s) k"

definition httpRequestEvent ::
  "env \<Rightarrow> string \<Rightarrow> string \<Rightarrow> string \<Rightarrow> filter_rule option \<Rightarrow> int \<Rightarrow> event"
where
  "httpRequestEvent e reqUrl frUrl reqType rule eid =
     (let filteringEvent =
            emptyEvent\<lparr>eventId := Some eid, requestUrl := Some reqUrl,
                       requestDomain := getDomainName e reqUrl, frameUrl := Some frUrl,
                       frameDomain := getDomainName e frUrl, requestType := Some reqType,
                       requestThirdParty := Some (isThirdPartyRequest e reqUrl frUrl)\<rparr>
      in case rule of
           None \<Rightarrow> filteringEvent
         | Some r \<Rightarrow> addRuleToFilteringEvent filteringEvent r)"

definition addHttpRequestEvent ::
  "env \<Rightarrow> tab \<Rightarrow> string \<Rightarrow> string \<Rightarrow> string \<Rightarrow> filter_rule option \<Rightarrow> int \<Rightarrow> log_state \<Rightarrow> log_state"
where
  "addHttpRequestEvent e t reqUrl frUrl reqType rule eid s =
     (if openedFilteringLogsPage s = 0 then s
      else case map_of (tabsInfoMap s) (tabId t) of
             None \<Rightarrow> s
           | Some tabInfo \<Rightarrow>
               pushFilteringEvent (tabId t) tabInfo
                 (httpRequestEvent e reqUrl frUrl reqType rule eid) s)"

definition cosmeticEvent :: "env \<Rightarrow> element_arg \<Rightarrow> string \<Rightarrow> string \<Rightarrow> event" where
  "cosmeticEvent e el frUrl reqType =
     emptyEvent\<lparr>element := Some (case el of ElementString str \<Rightarrow> str
                                           | ElementNode n \<Rightarrow> elementToString e n),
                frameUrl := Some frUrl, frameDomain := getDomainName e frUrl,
                requestType := Some reqType\<rparr>"

definition addCosmeticEvent ::
  "env \<Rightarrow> tab \<Rightarrow> element_arg \<Rightarrow> string \<Rightarrow> string \<Rightarrow> filter_rule option \<Rightarrow> log_state \<Rightarrow> log_state"
where
  "addCosmeticEvent e t el frUrl reqType rule s =
     (if openedFilteringLogsPage s = 0 then s
      else case rule of
             None \<Rightarrow> s
           | Some r \<Rightarrow>
               (case map_of (tabsInfoMap s) (tabId t) of
                  None \<Rightarrow> s
                | Some tabInfo \<Rightarrow>
                    pushFilteringEvent (tabId t) tabInfo
                      (addRuleToFilteringEvent (cosmeticEvent e el frUrl reqType) r) s))"

text \<open>\<^verbatim>\<open>if (cookieRule.stealthActions)\<close>: a number that is present and not zero.\<close>

definition truthyNumber :: "int option \<Rightarrow> bool" where
  "truthyNumber v = (case v of None \<Rightarrow> False | Some n \<Rightarrow> n \<noteq> 0)"

definition cookieEvent ::
  "string \<Rightarrow> string \<Rightarrow> string \<Rightarrow> string \<Rightarrow> filter_rule option \<Rightarrow> bool \<Rightarrow> bool \<Rightarrow> event"
where
  "cookieEvent cName cValue cDomain reqType crule modifying thirdParty =
     (let filteringEvent =
            emptyEvent\<lparr>frameDomain := Some cDomain, requestType := Some reqType,
                       requestThirdParty := Some thirdParty, cookieName := Some cName,
                       cookieValue := Some cValue\<rparr>
      in case crule of
           None \<Rightarrow> filteringEvent
         | Some r \<Rightarrow>
             (let ev = filteringEvent\<lparr>requestRule :=
                         Some ((appendProperties emptyObject r)
                                 \<lparr>isModifyingCookieRule := Some modifying\<rparr>)\<rparr>
              in if truthyNumber (rule_stealthActions r)
                 then ev\<lparr>stealthActions := rule_stealthActions r\<rparr>
                 else ev))"

definition addCookieEvent ::
  "tab \<Rightarrow> string \<Rightarrow> string \<Rightarrow> string \<Rightarrow> string \<Rightarrow> filter_rule option \<Rightarrow> bool \<Rightarrow> bool
     \<Rightarrow> log_state \<Rightarrow> log_state"
where
  "addCookieEvent t cName cValue cDomain reqType crule modifying thirdParty s =
     (if openedFilteringLogsPage s = 0 then s
      else case map_of (tabsInfoMap s) (tabId t) of
             None \<Rightarrow> s
           | Some tabInfo \<Rightarrow>
               pushFilteringEvent (tabId t) tabInfo
                 (cookieEvent cName cValue cDomain reqType crule modifying thirdParty) s)"

subsection \<open>Binding late facts to a recorded event\<close>

text \<open>
  The loop shared by the three binding functions:
  \<^verbatim>\<open>for (let i = events.length - 1; i >= 0; i -= 1)\<close>, left at the first event whose
  \<^verbatim>\<open>eventId\<close> is the one looked for. \<open>findEvent events eid n\<close> scans the indices below
  \<open>n\<close> downwards and returns the index where the loop breaks.
\<close>

fun findEvent :: "event list \<Rightarrow> int \<Rightarrow> nat \<Rightarrow> nat option" where
  "findEvent events eid 0 = None"
| "findEvent events eid (Suc i) =
     (if eventId (events ! i) = Some eid then Some i else findEvent events eid i)"

definition bindToEvent ::
  "(event \<Rightarrow> event) \<Rightarrow> tab \<Rightarrow> int \<Rightarrow> log_state \<Rightarrow> log_state"
where
  "bindToEvent change t eid s =
     (if openedFilteringLogsPage s = 0 then s
      else case map_of (tabsInfoMap s) (tabId t) of
             None \<Rightarrow> s
           | Some tabInfo \<Rightarrow>
               (case filteringEvents tabInfo of
                  None \<Rightarrow> s
                | Some events \<Rightarrow>
                    (case findEvent events eid (length events) of
                       None \<Rightarrow> s
                     | Some i \<Rightarrow>
                         (let ev = change (events ! i);
                              tabInfo' = tabInfo\<lparr>filteringEvents := Some (events[i := ev])\<rparr>
                          in notifyListeners (LOG_EVENT_UPDATED tabInfo' ev)
                               (storeTabInfo (tabId t) tabInfo' s)))))"

definition bindRuleToHttpRequestEvent ::
  "tab \<Rightarrow> filter_rule \<Rightarrow> int \<Rightarrow> log_state \<Rightarrow> log_state"
where
  "bindRuleToHttpRequestEvent t rule eid s =
     bindToEvent (\<lambda>ev. addRuleToFilteringEvent ev rule) t eid s"

definition bindReplaceRulesToHttpRequestEvent ::
  "tab \<Rightarrow> filter_rule list \<Rightarrow> int \<Rightarrow> log_state \<Rightarrow> log_state"
where
  "bindReplaceRulesToHttpRequestEvent t rules eid s =
     bindToEvent (\<lambda>ev. addReplaceRulesToFilteringEvent ev rules) t eid s"

definition bindStealthActionsToHttpRequestEvent ::
  "tab \<Rightarrow> int \<Rightarrow> int \<Rightarrow> log_state \<Rightarrow> log_state"
where
  "bindStealthActionsToHttpRequestEvent t actions eid s =
     bindToEvent (\<lambda>ev. ev\<lparr>stealthActions := Some actions\<rparr>) t eid s"

subsection \<open>Clearing, synchronizing, opening and closing\<close>

definition clearEventsByTabId :: "int \<Rightarrow> log_state \<Rightarrow> log_state" where
  "clearEventsByTabId k s =
     (case map_of (tabsInfoMap s) k of
        None \<Rightarrow> s
      | Some tabInfo \<Rightarrow>
          (let tabInfo' = tabInfo\<lparr>filteringEvents := None\<rparr>
           in notifyListeners (TAB_RESET tabInfo') (storeTabInfo k tabInfo' s)))"

text \<open>
  The body of the callback that \<^verbatim>\<open>synchronizeOpenTabs\<close> hands to
  \<^verbatim>\<open>adguard.tabs.getAll\<close>, run on the list of open tabs. \<^verbatim>\<open>tabIdsToRemove\<close> starts as
  the keys of the map read back as numbers. The first loop adds or updates each open tab
  and strikes its id from \<^verbatim>\<open>tabIdsToRemove\<close>; the second removes what is left.
\<close>

fun syncOpenTabs :: "env \<Rightarrow> tab list \<Rightarrow> int list \<Rightarrow> log_state \<Rightarrow> int list \<times> log_state" where
  "syncOpenTabs e [] tabIdsToRemove s = (tabIdsToRemove, s)"
| "syncOpenTabs e (openTab # tabs) tabIdsToRemove s =
     (let s' = (case map_of (tabsInfoMap s) (tabId openTab) of
                  None \<Rightarrow> addTab e openTab s
                | Some _ \<Rightarrow> updateTab e openTab s)
      in syncOpenTabs e tabs (remove1 (tabId openTab) tabIdsToRemove) s')"

fun removeTabs :: "env \<Rightarrow> int list \<Rightarrow> log_state \<Rightarrow> log_state" where
  "removeTabs e [] s = s"
| "removeTabs e (k # ks) s = removeTabs e ks (removeTabById e k s)"

definition synchronizeOpenTabs :: "env \<Rightarrow> tab list \<Rightarrow> log_state \<Rightarrow> log_state" where
  "synchronizeOpenTabs e tabs s =
     (let (tabIdsToRemove, s') =
            syncOpenTabs e tabs (map (\<lambda>p. keyToInt e (fst p)) (tabsInfoMap s)) s
      in removeTabs e tabIdsToRemove s')"

text \<open>The array \<^verbatim>\<open>syncTabs\<close> that the callback of \<^verbatim>\<open>synchronizeOpenTabs\<close> receives.\<close>

definition syncTabs :: "log_state \<Rightarrow> tabInfo list" where
  "syncTabs s = map snd (tabsInfoMap s)"

definition onOpenFilteringLogPage :: "log_state \<Rightarrow> log_state" where
  "onOpenFilteringLogPage s = s\<lparr>openedFilteringLogsPage := openedFilteringLogsPage s + 1\<rparr>"

definition onCloseFilteringLogPage :: "log_state \<Rightarrow> log_state" where
  "onCloseFilteringLogPage s =
     (let n = max (openedFilteringLogsPage s - 1) 0;
          s' = s\<lparr>openedFilteringLogsPage := n\<rparr>
      in if n = 0
         then s'\<lparr>tabsInfoMap :=
                   map (\<lambda>(k, tabInfo). (k, tabInfo\<lparr>filteringEvents := None\<rparr>)) (tabsInfoMap s')\<rparr>
         else s')"

definition isOpen :: "log_state \<Rightarrow> bool" where
  "isOpen s \<longleftrightarrow> openedFilteringLogsPage s > 0"

subsection \<open>Sequences of calls\<close>

datatype operation =
    AddTab tab
  | UpdateTab tab
  | RemoveTab tab
  | SynchronizeOpenTabs "tab list"
  | AddHttpRequestEvent tab string string string "filter_rule option" int
  | AddCosmeticEvent tab element_arg string string "filter_rule option"
  | AddCookieEvent tab string string string string "filter_rule option" bool bool
  | BindRule tab filter_rule int
  | BindReplaceRules tab "filter_rule list" int
  | BindStealthActions tab int int
  | ClearEventsByTabId int
  | OpenFilteringLogPage
  | CloseFilteringLogPage

fun call :: "env \<Rightarrow> operation \<Rightarrow> log_state \<Rightarrow> log_state" where
  "call e (AddTab t) s = addTab e t s"
| "call e (UpdateTab t) s = updateTab e t s"
| "call e (RemoveTab t) s = removeTabById e (tabId t) s"
| "call e (SynchronizeOpenTabs tabs) s = synchronizeOpenTabs e tabs s"
| "call e (AddHttpRequestEvent t u f ty r i) s = addHttpRequestEvent e t u f ty r i s"
| "call e (AddCosmeticEvent t el f ty r) s = addCosmeticEvent e t el f ty r s"
| "call e (AddCookieEvent t n v d ty r m tp) s = addCookieEvent t n v d ty r m tp s"
| "call e (BindRule t r i) s = bindRuleToHttpRequestEvent t r i s"
| "call e (BindReplaceRules t rs i) s = bindReplaceRulesToHttpRequestEvent t rs i s"
| "call e (BindStealthActions t a i) s = bindStealthActionsToHttpRequestEvent t a i s"
| "call e (ClearEventsByTabId k) s = clearEventsByTabId k s"
| "call e OpenFilteringLogPage s = onOpenFilteringLogPage s"
| "call e CloseFilteringLogPage s = onCloseFilteringLogPage s"

fun calls :: "env \<Rightarrow> operation list \<Rightarrow> log_state \<Rightarrow> log_state" where
  "calls e [] s = s"
| "calls e (c # cs) s = calls e cs (call e c s)"

subsection \<open>Well-formed states\<close>

text \<open>
  A JavaScript object holds each key once, and no array of events outgrows
  \<^verbatim>\<open>REQUESTS_SIZE_PER_TAB\<close>.
\<close>

definition boundedInfo :: "tabInfo \<Rightarrow> bool" where
  "boundedInfo ti =
     (case filteringEvents ti of None \<Rightarrow> True | Some events \<Rightarrow> length events \<le> REQUESTS_SIZE_PER_TAB)"

definition boundedState :: "log_state \<Rightarrow> bool" where
  "boundedState s \<longleftrightarrow>
     distinct (map fst (tabsInfoMap s)) \<and> list_all (\<lambda>p. boundedInfo (snd p)) (tabsInfoMap s)"

text \<open>The calls that only touch the registry of tabs.\<close>

fun registryCall :: "operation \<Rightarrow> bool" where
  "registryCall (AddTab t) = True"
| "registryCall (UpdateTab t) = True"
| "registryCall (RemoveTab t) = True"
| "registryCall (SynchronizeOpenTabs tabs) = True"
| "registryCall c = False"

fun isTabAdded :: "notification \<Rightarrow> bool" where
  "isTabAdded (TAB_ADDED ti) = True"
| "isTabAdded n = False"

fun isTabClose :: "notification \<Rightarrow> bool" where
  "isTabClose (TAB_CLOSE ti) = True"
| "isTabClose n = False"

fun isTabReset :: "notification \<Rightarrow> bool" where
  "isTabReset (TAB_RESET ti) = True"
| "isTabReset n = False"

text \<open>The tab id that a \<^verbatim>\<open>TAB_UPDATE\<close> notification carries.\<close>

fun tabUpdateId :: "notification \<Rightarrow> int option" where
  "tabUpdateId (TAB_UPDATE ti) = Some (info_tabId ti)"
| "tabUpdateId n = None"

subsection \<open>Sample values\<close>

definition sampleEnv :: env where
  "sampleEnv =
     \<lparr>backgroundTabId = - 1, backgroundTabTitle = ''Background'', hasBackgroundTab = True,
      extensionURL = ''ext://adguard/'', getDomainName = (\<lambda>u. Some u),
      isThirdPartyRequest = (\<lambda>u f. u \<noteq> f), elementToString = (\<lambda>n. n),
      parseIntExponent = (\<lambda>k. if k < 0 then - 1 else 1)\<rparr>"

definition sampleTab :: tab where
  "sampleTab = \<lparr>tabId = 7, title = ''News'', url = Some ''http://news.example/''\<rparr>"

definition sampleRule :: filter_rule where
  "sampleRule =
     \<lparr>rule_filterId = 2, rule_ruleText = ''||ads.example^'',
      rule_class = UrlFilterRule False False None None, rule_stealthActions = None\<rparr>"

definition sampleEvent :: "int \<Rightarrow> event" where
  "sampleEvent i = httpRequestEvent sampleEnv ''http://ads.example/a.js'' ''http://news.example/''
     ''SCRIPT'' None i"

definition sampleInfo :: "event list option \<Rightarrow> tabInfo" where
  "sampleInfo buf =
     \<lparr>info_tabId = 7, info_title = ''News'', isExtensionTab = FlagBool False,
      filteringEvents = buf\<rparr>"

definition sampleState :: "int \<Rightarrow> event list option \<Rightarrow> log_state" where
  "sampleState n buf =
     \<lparr>tabsInfoMap = [(7, sampleInfo buf), (- 1, backgroundTab sampleEnv)],
      openedFilteringLogsPage = n, notified = []\<rparr>"

definition sampleCalls :: "operation list" where
  "sampleCalls =
     [AddTab sampleTab, OpenFilteringLogPage,
      AddHttpRequestEvent sampleTab ''http://ads.example/a.js'' ''http://news.example/''
        ''SCRIPT'' None 1]"

text \<open>
  A run of calls of \<^verbatim>\<open>addHttpRequestEvent\<close> for one tab, each given by its arguments
  \<open>(requestUrl, frameUrl, requestType, requestRule, eventId)\<close>, and the events that these
  calls build.
\<close>

type_synonym request = "string \<times> string \<times> string \<times> filter_rule option \<times> int"

definition requestCalls :: "tab \<Rightarrow> request list \<Rightarrow> operation list" where
  "requestCalls t reqs = map (\<lambda>(u, f, ty, r, i). AddHttpRequestEvent t u f ty r i) reqs"

definition requestEvents :: "env \<Rightarrow> request list \<Rightarrow> event list" where
  "requestEvents e reqs = map (\<lambda>(u, f, ty, r, i). httpRequestEvent e u f ty r i) reqs"

definition sampleRequests :: "nat \<Rightarrow> request list" where
  "sampleRequests n =
     map (\<lambda>i. (''http://ads.example/a.js'', ''http://news.example/'', ''SCRIPT'', None, int i))
       [0..<n]"

text \<open>Three events, the first and the last with the same \<^verbatim>\<open>eventId\<close>.\<close>

definition sampleEvents :: "event list" where
  "sampleEvents = [sampleEvent 1, sampleEvent 2, (sampleEvent 1)\<lparr>requestType := Some ''IMAGE''\<rparr>]"

text \<open>
  The rule snapshot as the specification describes it: the filter id, the rule text, the
  mark of a content rule or of a style rule, and for a network rule its four properties;
  nothing else is set.
\<close>

definition specRuleSnapshot :: "filter_rule \<Rightarrow> rule_snapshot" where
  "specRuleSnapshot r =
     \<lparr>filterId = Some (rule_filterId r),
      ruleText = Some (rule_ruleText r),
      contentRule = (if rule_class r = ContentFilterRule then Some True else None),
      cssRule = (if rule_class r = CssFilterRule then Some True else None),
      whiteListRule = (case rule_class r of UrlFilterRule w c d co \<Rightarrow> Some w | _ \<Rightarrow> None),
      cspRule = (case rule_class r of UrlFilterRule w c d co \<Rightarrow> Some c | _ \<Rightarrow> None),
      cspDirective = (case rule_class r of UrlFilterRule w c d co \<Rightarrow> d | _ \<Rightarrow> None),
      cookieRule = (case rule_class r of
                      UrlFilterRule w c d co \<Rightarrow> Some (co \<noteq> None \<and> co \<noteq> Some [])
                    | _ \<Rightarrow> None),
      replaceRule = None,
      isModifyingCookieRule = None\<rparr>"

text \<open>
  \<open>appended s k ti ev s'\<close>: from \<open>s\<close> to \<open>s'\<close> the event \<open>ev\<close> was pushed onto the
  events of the tab info \<open>ti\<close> held under the key \<open>k\<close>, it is the last event of the
  array, and one \<^verbatim>\<open>LOG_EVENT_ADDED\<close> notification was published for it.
\<close>

definition appended :: "log_state \<Rightarrow> int \<Rightarrow> tabInfo \<Rightarrow> event \<Rightarrow> log_state \<Rightarrow> bool" where
  "appended s k ti ev s' \<longleftrightarrow>
     (let events = pushEvent (filteringEvents ti) ev;
          ti' = ti\<lparr>filteringEvents := Some events\<rparr>
      in getFilteringInfoByTabId s' k = Some ti'
         \<and> events \<noteq> [] \<and> last events = ev
         \<and> notified s' = notified s @ [LOG_EVENT_ADDED ti' ev])"

definition sampleBackground :: tab where
  "sampleBackground = \<lparr>tabId = - 1, title = ''Other'', url = None\<rparr>"

definition sampleRegistryCalls :: "operation list" where
  "sampleRegistryCalls =
     [AddTab sampleBackground, UpdateTab sampleBackground, RemoveTab sampleBackground,
      SynchronizeOpenTabs [sampleTab], SynchronizeOpenTabs [sampleBackground],
      SynchronizeOpenTabs []]"

definition sampleOpenTabs :: "tab list" where
  "sampleOpenTabs =
     [sampleTab, \<lparr>tabId = 9, title = ''Mail'', url = Some ''http://mail.example/''\<rparr>,
      sampleBackground]"

section \<open>Properties\<close>

subsection \<open>The map of tabs\<close>

lemma keys_replaceKey [simp]: "map fst (replaceKey k v m) = map fst m"
  by (induction m) auto

lemma map_of_replaceKey:
  "map_of (replaceKey k v m) = (if map_of m k = None then map_of m else (map_of m)(k \<mapsto> v))"
  by (induction m) (auto simp: fun_eq_iff)

lemma map_of_insertKey: "map_of m k = None \<Longrightarrow> map_of (insertKey k v m) = (map_of m)(k \<mapsto> v)"
  by (induction m) (auto simp: fun_eq_iff split: if_splits)

lemma keys_insertKey: "set (map fst (insertKey k v m)) = insert k (set (map fst m))"
  by (induction k v m rule: insertKey.induct) auto

lemma distinct_insertKey:
  "k \<notin> set (map fst m) \<Longrightarrow> distinct (map fst m) \<Longrightarrow> distinct (map fst (insertKey k v m))"
proof (induction m)
  case Nil
  then show ?case by simp
next
  case (Cons p m)
  obtain k' v' where p: "p = (k', v')" by (cases p)
  from Cons.prems have "k \<noteq> k'" "k \<notin> set (map fst m)" "distinct (map fst m)"
    "k' \<notin> set (map fst m)" by (auto simp: p)
  moreover have "k' \<notin> set (map fst (insertKey k v m))"
    using \<open>k \<noteq> k'\<close> \<open>k' \<notin> set (map fst m)\<close> by (simp only: keys_insertKey) simp
  ultimately show ?case using Cons.IH by (simp add: p del: set_map)
qed

lemma map_of_setKey [simp]: "map_of (setKey k v m) = (map_of m)(k \<mapsto> v)"
  by (cases "map_of m k") (simp_all add: setKey_def map_of_insertKey map_of_replaceKey)

lemma keys_setKey: "set (map fst (setKey k v m)) = insert k (set (map fst m))"
proof (cases "map_of m k")
  case None
  then show ?thesis by (simp add: setKey_def keys_insertKey del: set_map)
next
  case (Some a)
  then have "k \<in> set (map fst m)" by (metis map_of_eq_None_iff option.distinct(1) set_map)
  with Some show ?thesis by (auto simp: setKey_def simp del: set_map)
qed

lemma distinct_setKey: "distinct (map fst m) \<Longrightarrow> distinct (map fst (setKey k v m))"
proof (cases "map_of m k")
  case None
  then have "k \<notin> set (map fst m)" by (simp add: map_of_eq_None_iff)
  then show ?thesis if "distinct (map fst m)"
    using that None by (simp add: setKey_def distinct_insertKey del: set_map)
next
  case (Some a)
  then show ?thesis if "distinct (map fst m)" using that by (simp add: setKey_def)
qed

lemma map_of_deleteKey [simp]: "map_of (deleteKey k m) = (map_of m)(k := None)"
  by (induction m) (auto simp: deleteKey_def fun_eq_iff)

lemma keys_deleteKey: "map fst (deleteKey k m) = removeAll k (map fst m)"
  by (induction m) (auto simp: deleteKey_def)

lemma distinct_deleteKey: "distinct (map fst m) \<Longrightarrow> distinct (map fst (deleteKey k m))"
  by (simp add: keys_deleteKey distinct_removeAll)

subsection \<open>Recording only while a log page is open\<close>

text \<open>
  Claim C4. While no filtering log page is open (\<open>openedFilteringLogsPage = 0\<close>), each of
  the three recording functions and each of the three binding functions returns the
  state it was given: no array of events is created or changed, the map of tabs is the
  same and nothing is notified, whatever the arguments.
\<close>

theorem gate_closed_no_effect:
  assumes "openedFilteringLogsPage s = 0"
  shows "addHttpRequestEvent e t reqUrl frUrl reqType rule eid s = s
    \<and> addCosmeticEvent e t el frUrl reqType rule s = s
    \<and> addCookieEvent t cName cValue cDomain reqType rule modifying thirdParty s = s
    \<and> bindRuleToHttpRequestEvent t r eid s = s
    \<and> bindReplaceRulesToHttpRequestEvent t rs eid s = s
    \<and> bindStealthActionsToHttpRequestEvent t actions eid s = s"
  using assms
  by (simp add: addHttpRequestEvent_def addCosmeticEvent_def addCookieEvent_def
      bindRuleToHttpRequestEvent_def bindReplaceRulesToHttpRequestEvent_def
      bindStealthActionsToHttpRequestEvent_def bindToEvent_def)

theorem gate_closed_no_effect_witness:
  "openedFilteringLogsPage (sampleState 0 (Some [sampleEvent 1])) = 0
   \<and> getFilteringInfoByTabId (sampleState 0 (Some [sampleEvent 1])) (tabId sampleTab) \<noteq> None
   \<and> addHttpRequestEvent sampleEnv sampleTab ''http://ads.example/b.js'' ''http://news.example/''
        ''SCRIPT'' (Some sampleRule) 1 (sampleState 0 (Some [sampleEvent 1]))
      = sampleState 0 (Some [sampleEvent 1])
   \<and> bindRuleToHttpRequestEvent sampleTab sampleRule 1 (sampleState 0 (Some [sampleEvent 1]))
      = sampleState 0 (Some [sampleEvent 1])"
proof -
  have closed: "openedFilteringLogsPage (sampleState 0 (Some [sampleEvent 1])) = 0"
    by (simp add: sampleState_def)
  have known:
    "getFilteringInfoByTabId (sampleState 0 (Some [sampleEvent 1])) (tabId sampleTab) \<noteq> None"
    by (simp add: sampleState_def sampleTab_def getFilteringInfoByTabId_def)
  show ?thesis
    using closed known
      gate_closed_no_effect [OF closed, where e = sampleEnv and t = sampleTab
        and reqUrl = "''http://ads.example/b.js''" and frUrl = "''http://news.example/''"
        and reqType = "''SCRIPT''" and rule = "Some sampleRule" and eid = 1 and r = sampleRule]
    by blast
qed

subsection \<open>Clearing the events of one tab\<close>

text \<open>
  Claim C10. \<^verbatim>\<open>clearEventsByTabId\<close> does not look at the counter of opened log pages. For
  a tab id that is in the map, the tab info loses its array of events, one
  \<^verbatim>\<open>TAB_RESET\<close> notification carrying that tab info is published, and the counter, the
  keys and every other entry stay as they were; this holds in every state, so also when
  no log page is open. For a tab id that is not in the map the state is unchanged, so
  nothing is published.
\<close>

theorem clearEventsByTabId_ungated:
  "(\<forall>ti. getFilteringInfoByTabId s k = Some ti \<longrightarrow>
      getFilteringInfoByTabId (clearEventsByTabId k s) k = Some (ti\<lparr>filteringEvents := None\<rparr>)
      \<and> notified (clearEventsByTabId k s) = notified s @ [TAB_RESET (ti\<lparr>filteringEvents := None\<rparr>)]
      \<and> openedFilteringLogsPage (clearEventsByTabId k s) = openedFilteringLogsPage s
      \<and> map fst (tabsInfoMap (clearEventsByTabId k s)) = map fst (tabsInfoMap s)
      \<and> (\<forall>k'. k' \<noteq> k \<longrightarrow>
           getFilteringInfoByTabId (clearEventsByTabId k s) k' = getFilteringInfoByTabId s k'))
   \<and> (getFilteringInfoByTabId s k = None \<longrightarrow> clearEventsByTabId k s = s)"
  by (auto simp: getFilteringInfoByTabId_def clearEventsByTabId_def notifyListeners_def
      storeTabInfo_def map_of_replaceKey Let_def)

theorem clearEventsByTabId_ungated_witness:
  "openedFilteringLogsPage (sampleState 0 (Some [sampleEvent 1])) = 0
   \<and> getFilteringInfoByTabId (sampleState 0 (Some [sampleEvent 1])) 7
       = Some (sampleInfo (Some [sampleEvent 1]))
   \<and> getFilteringInfoByTabId (clearEventsByTabId 7 (sampleState 0 (Some [sampleEvent 1]))) 7
       = Some (sampleInfo None)
   \<and> notified (clearEventsByTabId 7 (sampleState 0 (Some [sampleEvent 1])))
       = [TAB_RESET (sampleInfo None)]
   \<and> getFilteringInfoByTabId (sampleState 0 (Some [sampleEvent 1])) 8 = None
   \<and> clearEventsByTabId 8 (sampleState 0 (Some [sampleEvent 1]))
       = sampleState 0 (Some [sampleEvent 1])"
proof -
  have closed: "openedFilteringLogsPage (sampleState 0 (Some [sampleEvent 1])) = 0"
    by (simp add: sampleState_def)
  have known: "getFilteringInfoByTabId (sampleState 0 (Some [sampleEvent 1])) 7
       = Some (sampleInfo (Some [sampleEvent 1]))"
    by (simp add: sampleState_def getFilteringInfoByTabId_def)
  have unknown: "getFilteringInfoByTabId (sampleState 0 (Some [sampleEvent 1])) 8 = None"
    by (simp add: sampleState_def getFilteringInfoByTabId_def)
  have cleared: "(sampleInfo (Some [sampleEvent 1]))\<lparr>filteringEvents := None\<rparr> = sampleInfo None"
    by (simp add: sampleInfo_def)
  have quiet: "notified (sampleState 0 (Some [sampleEvent 1])) = []"
    by (simp add: sampleState_def)
  show ?thesis
    using closed known unknown
      clearEventsByTabId_ungated [of "sampleState 0 (Some [sampleEvent 1])" 7]
      clearEventsByTabId_ungated [of "sampleState 0 (Some [sampleEvent 1])" 8]
    by (simp add: cleared quiet)
qed

subsection \<open>Closing a filtering log page\<close>

lemma keys_clearAll:
  "map fst (map (\<lambda>(k, tabInfo). (k, tabInfo\<lparr>filteringEvents := None\<rparr>)) m) = map fst m"
  by (induction m) auto

lemma map_of_clearAll:
  "map_of m k = Some ti \<Longrightarrow>
   map_of (map (\<lambda>(k, tabInfo). (k, tabInfo\<lparr>filteringEvents := None\<rparr>)) m) k
     = Some (ti\<lparr>filteringEvents := None\<rparr>)"
  by (induction m) (auto split: if_splits)

text \<open>
  Claim C5, as the code has it. \<^verbatim>\<open>onCloseFilteringLogPage\<close> lowers the counter by one
  and never below 0. When the new counter is 0, every tab info of the map loses its
  array of events and keeps its other properties; otherwise every tab info is unchanged.
  The keys of the map stay the same, and the function publishes no notification.
\<close>

theorem onCloseFilteringLogPage_effect:
  "openedFilteringLogsPage (onCloseFilteringLogPage s) = max (openedFilteringLogsPage s - 1) 0
   \<and> notified (onCloseFilteringLogPage s) = notified s
   \<and> map fst (tabsInfoMap (onCloseFilteringLogPage s)) = map fst (tabsInfoMap s)
   \<and> (\<forall>k ti. getFilteringInfoByTabId s k = Some ti \<longrightarrow>
         getFilteringInfoByTabId (onCloseFilteringLogPage s) k =
           Some (if openedFilteringLogsPage (onCloseFilteringLogPage s) = 0
                 then ti\<lparr>filteringEvents := None\<rparr> else ti))"
  by (auto simp: onCloseFilteringLogPage_def Let_def getFilteringInfoByTabId_def
      keys_clearAll map_of_clearAll simp del: map_map)

theorem onCloseFilteringLogPage_effect_witness:
  "getFilteringInfoByTabId (sampleState 1 (Some [sampleEvent 1])) 7
     = Some (sampleInfo (Some [sampleEvent 1]))
   \<and> openedFilteringLogsPage (onCloseFilteringLogPage (sampleState 1 (Some [sampleEvent 1]))) = 0
   \<and> notified (onCloseFilteringLogPage (sampleState 1 (Some [sampleEvent 1]))) = []
   \<and> getFilteringInfoByTabId (onCloseFilteringLogPage (sampleState 1 (Some [sampleEvent 1]))) 7
       = Some (sampleInfo None)"
proof -
  have known: "getFilteringInfoByTabId (sampleState 1 (Some [sampleEvent 1])) 7
       = Some (sampleInfo (Some [sampleEvent 1]))"
    by (simp add: sampleState_def getFilteringInfoByTabId_def)
  have one: "openedFilteringLogsPage (sampleState 1 (Some [sampleEvent 1])) = 1"
    by (simp add: sampleState_def)
  have quiet: "notified (sampleState 1 (Some [sampleEvent 1])) = []"
    by (simp add: sampleState_def)
  have cleared: "(sampleInfo (Some [sampleEvent 1]))\<lparr>filteringEvents := None\<rparr> = sampleInfo None"
    by (simp add: sampleInfo_def)
  show ?thesis
    using known onCloseFilteringLogPage_effect [of "sampleState 1 (Some [sampleEvent 1])"]
    by (simp add: one quiet cleared)
qed

text \<open>
  Claim C5, as the specification words it, fails: the close that brings the counter from
  1 to 0 in a state with a known tab publishes no \<^verbatim>\<open>TAB_RESET\<close> notification.
\<close>

theorem onCloseFilteringLogPage_no_reset_notification:
  "openedFilteringLogsPage (sampleState 1 (Some [sampleEvent 1])) = 1
   \<and> getFilteringInfoByTabId (sampleState 1 (Some [sampleEvent 1])) 7
       = Some (sampleInfo (Some [sampleEvent 1]))
   \<and> openedFilteringLogsPage (onCloseFilteringLogPage (sampleState 1 (Some [sampleEvent 1]))) = 0
   \<and> \<not> list_ex isTabReset
         (notified (onCloseFilteringLogPage (sampleState 1 (Some [sampleEvent 1]))))"
  by (simp add: sampleState_def onCloseFilteringLogPage_def getFilteringInfoByTabId_def)

text \<open>
  Claim C6. When the last filtering log page closes (the counter is at most 1 before the
  call), every tab id that was in the map is still there: \<^verbatim>\<open>getFilteringInfoByTabId\<close>
  returns a tab info with the same id, title and extension flag, and without an array of
  events. The keys of the map are the same as before.
\<close>

theorem close_last_page_keeps_tabs:
  assumes "openedFilteringLogsPage s \<le> 1"
    and "getFilteringInfoByTabId s k = Some ti"
  shows "(\<exists>ti'. getFilteringInfoByTabId (onCloseFilteringLogPage s) k = Some ti'
           \<and> info_tabId ti' = info_tabId ti \<and> info_title ti' = info_title ti
           \<and> isExtensionTab ti' = isExtensionTab ti \<and> filteringEvents ti' = None)
    \<and> map fst (tabsInfoMap (onCloseFilteringLogPage s)) = map fst (tabsInfoMap s)"
proof -
  from assms(1) have zero: "max (openedFilteringLogsPage s - 1) 0 = 0" by simp
  from assms(2) have
    "getFilteringInfoByTabId (onCloseFilteringLogPage s) k = Some (ti\<lparr>filteringEvents := None\<rparr>)"
    by (simp add: onCloseFilteringLogPage_def Let_def zero getFilteringInfoByTabId_def
        map_of_clearAll)
  moreover have "map fst (tabsInfoMap (onCloseFilteringLogPage s)) = map fst (tabsInfoMap s)"
    by (simp add: onCloseFilteringLogPage_def Let_def keys_clearAll del: map_map)
  ultimately show ?thesis by simp
qed

theorem close_last_page_keeps_tabs_witness:
  "openedFilteringLogsPage (sampleState 1 (Some [sampleEvent 1])) \<le> 1
   \<and> getFilteringInfoByTabId (sampleState 1 (Some [sampleEvent 1])) 7
       = Some (sampleInfo (Some [sampleEvent 1]))
   \<and> (\<exists>ti'. getFilteringInfoByTabId
                (onCloseFilteringLogPage (sampleState 1 (Some [sampleEvent 1]))) 7 = Some ti'
           \<and> info_tabId ti' = 7 \<and> info_title ti' = ''News'' \<and> filteringEvents ti' = None)"
proof -
  have last: "openedFilteringLogsPage (sampleState 1 (Some [sampleEvent 1])) \<le> 1"
    by (simp add: sampleState_def)
  have known: "getFilteringInfoByTabId (sampleState 1 (Some [sampleEvent 1])) 7
       = Some (sampleInfo (Some [sampleEvent 1]))"
    by (simp add: sampleState_def getFilteringInfoByTabId_def)
  have fields: "info_tabId (sampleInfo (Some [sampleEvent 1])) = 7"
    "info_title (sampleInfo (Some [sampleEvent 1])) = ''News''"
    by (simp_all add: sampleInfo_def)
  from close_last_page_keeps_tabs [OF last known] fields last known
  show ?thesis by auto
qed

subsection \<open>The bound on the arrays of events\<close>

lemma set_replaceKey: "set (replaceKey k v m) \<subseteq> insert (k, v) (set m)"
  by (induction k v m rule: replaceKey.induct) auto

lemma set_insertKey: "set (insertKey k v m) = insert (k, v) (set m)"
  by (induction k v m rule: insertKey.induct) auto

lemma set_setKey: "set (setKey k v m) \<subseteq> insert (k, v) (set m)"
  using set_replaceKey [of k v m]
  by (cases "map_of m k") (simp_all add: setKey_def set_insertKey)

lemma set_deleteKey: "set (deleteKey k m) \<subseteq> set m"
  by (simp add: deleteKey_def)

lemma boundedState_iff:
  "boundedState s \<longleftrightarrow>
     distinct (map fst (tabsInfoMap s)) \<and> (\<forall>p \<in> set (tabsInfoMap s). boundedInfo (snd p))"
  by (simp add: boundedState_def list_all_iff)

lemma bounded_notifyListeners [simp]: "boundedState (notifyListeners n s) = boundedState s"
  by (simp add: boundedState_def notifyListeners_def)

lemma bounded_storeTabInfo:
  "boundedState s \<Longrightarrow> boundedInfo ti \<Longrightarrow> boundedState (storeTabInfo k ti s)"
  using set_replaceKey [of k ti "tabsInfoMap s"]
  by (auto simp: boundedState_iff storeTabInfo_def)

lemma bounded_lookup:
  "boundedState s \<Longrightarrow> map_of (tabsInfoMap s) k = Some ti \<Longrightarrow> boundedInfo ti"
  by (auto simp: boundedState_iff dest: map_of_SomeD)

lemma bounded_updateTabInfo:
  assumes "boundedState s"
  shows "boundedState (snd (updateTabInfo e t s))"
proof -
  let ?ti = "fst (updateTabInfo e t s)"
  have "boundedInfo ?ti"
    using bounded_lookup [OF assms, of "tabId t"]
    by (auto simp: updateTabInfo_def boundedInfo_def Let_def split: option.splits)
  moreover have "tabsInfoMap (snd (updateTabInfo e t s)) = setKey (tabId t) ?ti (tabsInfoMap s)"
    by (simp add: updateTabInfo_def Let_def)
  ultimately show ?thesis
    using assms set_setKey [of "tabId t" ?ti "tabsInfoMap s"]
    by (auto simp: boundedState_iff distinct_setKey)
qed

lemma bounded_addTab: "boundedState s \<Longrightarrow> boundedState (addTab e t s)"
  using bounded_updateTabInfo [of s e t] by (simp add: addTab_def split_beta)

lemma bounded_updateTab: "boundedState s \<Longrightarrow> boundedState (updateTab e t s)"
  using bounded_updateTabInfo [of s e t] by (simp add: updateTab_def split_beta)

lemma bounded_removeTabById: "boundedState s \<Longrightarrow> boundedState (removeTabById e k s)"
  using set_deleteKey [of k "tabsInfoMap s"]
  by (auto simp: removeTabById_def boundedState_iff notifyListeners_def distinct_deleteKey
      split: option.splits)

lemma length_splice_1_1: "2 \<le> length xs \<Longrightarrow> length (splice_1_1 xs) = length xs - 1"
  by (simp add: splice_1_1_def)

lemma length_pushEvent:
  "(case buf of None \<Rightarrow> True | Some events \<Rightarrow> length events \<le> REQUESTS_SIZE_PER_TAB)
   \<Longrightarrow> length (pushEvent buf ev) \<le> REQUESTS_SIZE_PER_TAB"
  by (auto simp: pushEvent_def Let_def length_splice_1_1 REQUESTS_SIZE_PER_TAB_def
      split: option.splits)

lemma bounded_pushFilteringEvent:
  "boundedState s \<Longrightarrow> boundedInfo ti \<Longrightarrow> boundedState (pushFilteringEvent k ti ev s)"
  using length_pushEvent [of "filteringEvents ti" ev]
  by (simp add: pushFilteringEvent_def Let_def bounded_storeTabInfo boundedInfo_def)

lemma bounded_addHttpRequestEvent:
  "boundedState s \<Longrightarrow> boundedState (addHttpRequestEvent e t u f ty r i s)"
  by (auto simp: addHttpRequestEvent_def bounded_pushFilteringEvent bounded_lookup
      split: option.splits)

lemma bounded_addCosmeticEvent:
  "boundedState s \<Longrightarrow> boundedState (addCosmeticEvent e t el f ty r s)"
  by (auto simp: addCosmeticEvent_def bounded_pushFilteringEvent bounded_lookup
      split: option.splits)

lemma bounded_addCookieEvent:
  "boundedState s \<Longrightarrow> boundedState (addCookieEvent t n v d ty r m tp s)"
  by (auto simp: addCookieEvent_def bounded_pushFilteringEvent bounded_lookup
      split: option.splits)

lemma bounded_bindToEvent: "boundedState s \<Longrightarrow> boundedState (bindToEvent change t eid s)"
proof -
  assume b: "boundedState s"
  have "boundedInfo (ti\<lparr>filteringEvents := Some (events[i := ev])\<rparr>)"
    if "map_of (tabsInfoMap s) (tabId t) = Some ti" "filteringEvents ti = Some events"
    for ti events i ev
    using bounded_lookup [OF b that(1)] that(2) by (simp add: boundedInfo_def)
  with b show ?thesis
    by (auto simp: bindToEvent_def Let_def bounded_storeTabInfo split: option.splits)
qed

lemma bounded_clearEventsByTabId: "boundedState s \<Longrightarrow> boundedState (clearEventsByTabId k s)"
  by (auto simp: clearEventsByTabId_def Let_def bounded_storeTabInfo boundedInfo_def
      split: option.splits)

lemma bounded_onOpen: "boundedState s \<Longrightarrow> boundedState (onOpenFilteringLogPage s)"
  by (simp add: boundedState_def onOpenFilteringLogPage_def)

lemma bounded_onClose: "boundedState s \<Longrightarrow> boundedState (onCloseFilteringLogPage s)"
  by (auto simp: boundedState_iff onCloseFilteringLogPage_def Let_def keys_clearAll
      boundedInfo_def simp del: map_map)

lemma bounded_syncOpenTabs:
  "boundedState s \<Longrightarrow> boundedState (snd (syncOpenTabs e tabs ids s))"
  by (induction tabs arbitrary: ids s)
     (auto simp: Let_def bounded_addTab bounded_updateTab split: option.splits)

lemma bounded_removeTabs: "boundedState s \<Longrightarrow> boundedState (removeTabs e ks s)"
  by (induction ks arbitrary: s) (simp_all add: bounded_removeTabById)

lemma bounded_synchronizeOpenTabs:
  "boundedState s \<Longrightarrow> boundedState (synchronizeOpenTabs e tabs s)"
  using bounded_syncOpenTabs [of s e tabs "map (\<lambda>p. keyToInt e (fst p)) (tabsInfoMap s)"]
  by (simp add: synchronizeOpenTabs_def split_beta bounded_removeTabs)

lemma bounded_call: "boundedState s \<Longrightarrow> boundedState (call e c s)"
  by (cases c)
     (simp_all add: bounded_addTab bounded_updateTab bounded_removeTabById
        bounded_synchronizeOpenTabs bounded_addHttpRequestEvent bounded_addCosmeticEvent
        bounded_addCookieEvent bounded_bindToEvent bindRuleToHttpRequestEvent_def
        bindReplaceRulesToHttpRequestEvent_def bindStealthActionsToHttpRequestEvent_def
        bounded_clearEventsByTabId bounded_onOpen bounded_onClose)

lemma bounded_calls: "boundedState s \<Longrightarrow> boundedState (calls e cs s)"
  by (induction cs arbitrary: s) (simp_all add: bounded_call)

lemma bounded_initialState: "boundedState (initialState e)"
  by (simp add: boundedState_def initialState_def boundedInfo_def backgroundTab_def)

text \<open>
  Claim C1. In every state that the module reaches from its initial state by any sequence
  of calls (recording, binding, clearing, opening and closing log pages, tab events and
  synchronizations), the map holds each tab id once, so a tab has one tab info with at
  most one array of events, and an array of events that is present holds at most 1000
  events.
\<close>

theorem buffers_bounded:
  "distinct (map fst (tabsInfoMap (calls e cs (initialState e))))
   \<and> (\<forall>k ti events.
        getFilteringInfoByTabId (calls e cs (initialState e)) k = Some ti
        \<and> filteringEvents ti = Some events
        \<longrightarrow> length events \<le> 1000)"
proof -
  have b: "boundedState (calls e cs (initialState e))"
    by (rule bounded_calls [OF bounded_initialState])
  then have "distinct (map fst (tabsInfoMap (calls e cs (initialState e))))"
    by (simp add: boundedState_def)
  moreover have "length events \<le> 1000"
    if "getFilteringInfoByTabId (calls e cs (initialState e)) k = Some ti"
      "filteringEvents ti = Some events" for k ti events
    using bounded_lookup [OF b, of k ti] that
    by (simp add: getFilteringInfoByTabId_def boundedInfo_def REQUESTS_SIZE_PER_TAB_def)
  ultimately show ?thesis by blast
qed

lemma sample_run:
  "tabsInfoMap (calls sampleEnv sampleCalls (initialState sampleEnv))
     = [(7, sampleInfo (Some [sampleEvent 1])), (- 1, backgroundTab sampleEnv)]"
  by (simp add: sampleCalls_def initialState_def sampleEnv_def sampleTab_def addTab_def
      updateTabInfo_def setKey_def isArrayIndex_def backgroundTab_def notifyListeners_def
      onOpenFilteringLogPage_def addHttpRequestEvent_def pushFilteringEvent_def
      storeTabInfo_def pushEvent_def REQUESTS_SIZE_PER_TAB_def sampleInfo_def sampleEvent_def
      extensionFlag_def Let_def)

theorem buffers_bounded_witness:
  "getFilteringInfoByTabId (calls sampleEnv sampleCalls (initialState sampleEnv)) 7
     = Some (sampleInfo (Some [sampleEvent 1]))
   \<and> filteringEvents (sampleInfo (Some [sampleEvent 1])) = Some [sampleEvent 1]
   \<and> length [sampleEvent 1] \<le> 1000
   \<and> distinct (map fst (tabsInfoMap (calls sampleEnv sampleCalls (initialState sampleEnv))))"
proof -
  have known: "getFilteringInfoByTabId (calls sampleEnv sampleCalls (initialState sampleEnv)) 7
     = Some (sampleInfo (Some [sampleEvent 1]))"
    by (simp add: getFilteringInfoByTabId_def sample_run)
  have buf: "filteringEvents (sampleInfo (Some [sampleEvent 1])) = Some [sampleEvent 1]"
    by (simp add: sampleInfo_def)
  from buffers_bounded [of sampleEnv sampleCalls] known buf
  show ?thesis by blast
qed

subsection \<open>Eviction\<close>

lemma calls_append: "calls e (cs @ ds) s = calls e ds (calls e cs s)"
  by (induction cs arbitrary: s) simp_all

lemma pushEvent_overflow:
  "REQUESTS_SIZE_PER_TAB \<le> length events \<Longrightarrow>
   pushEvent (Some events) ev = events ! 0 # drop 2 (events @ [ev])"
  by (cases events) (simp_all add: pushEvent_def splice_1_1_def REQUESTS_SIZE_PER_TAB_def)

lemma pushEvent_room:
  "length events < REQUESTS_SIZE_PER_TAB \<Longrightarrow> pushEvent (Some events) ev = events @ [ev]"
  by (simp add: pushEvent_def)

lemma pushEvent_None: "pushEvent None ev = pushEvent (Some []) ev"
  by (simp add: pushEvent_def)

lemma addHttpRequestEvent_active:
  assumes "openedFilteringLogsPage s \<noteq> 0" and "map_of (tabsInfoMap s) (tabId t) = Some ti"
  shows "map_of (tabsInfoMap (addHttpRequestEvent e t u f ty r i s)) (tabId t)
           = Some (ti\<lparr>filteringEvents :=
                Some (pushEvent (filteringEvents ti) (httpRequestEvent e u f ty r i))\<rparr>)"
    and "openedFilteringLogsPage (addHttpRequestEvent e t u f ty r i s) = openedFilteringLogsPage s"
  using assms
  by (simp_all add: addHttpRequestEvent_def pushFilteringEvent_def Let_def notifyListeners_def
      storeTabInfo_def map_of_replaceKey)

lemma requests_fill:
  assumes "openedFilteringLogsPage s \<noteq> 0"
    and "map_of (tabsInfoMap s) (tabId t) = Some ti"
    and "filteringEvents ti = None \<or> filteringEvents ti = Some []"
  shows "reqs \<noteq> [] \<Longrightarrow> length reqs \<le> REQUESTS_SIZE_PER_TAB \<Longrightarrow>
    map_of (tabsInfoMap (calls e (requestCalls t reqs) s)) (tabId t)
       = Some (ti\<lparr>filteringEvents := Some (requestEvents e reqs)\<rparr>)
    \<and> openedFilteringLogsPage (calls e (requestCalls t reqs) s) = openedFilteringLogsPage s"
proof (induction reqs rule: rev_induct)
  case Nil
  then show ?case by simp
next
  case (snoc q reqs)
  obtain u f ty r i where q: "q = (u, f, ty, r, i)" by (cases q)
  let ?s = "calls e (requestCalls t reqs) s"
  have step: "calls e (requestCalls t (reqs @ [q])) s = addHttpRequestEvent e t u f ty r i ?s"
    by (simp add: requestCalls_def calls_append q)
  have evs: "requestEvents e (reqs @ [q]) = requestEvents e reqs @ [httpRequestEvent e u f ty r i]"
    by (simp add: requestEvents_def q)
  show ?case
  proof (cases "reqs = []")
    case True
    then have s: "?s = s" by (simp add: requestCalls_def)
    from assms(3) have "pushEvent (filteringEvents ti) (httpRequestEvent e u f ty r i)
        = [httpRequestEvent e u f ty r i]"
      by (auto simp: pushEvent_def REQUESTS_SIZE_PER_TAB_def)
    then show ?thesis
      using addHttpRequestEvent_active [OF assms(1,2), of e u f ty r i]
      by (simp add: True requestCalls_def requestEvents_def q)
  next
    case False
    from snoc.prems have len: "length reqs < REQUESTS_SIZE_PER_TAB" by simp
    with snoc.IH False have
      look: "map_of (tabsInfoMap ?s) (tabId t) = Some (ti\<lparr>filteringEvents := Some (requestEvents e reqs)\<rparr>)"
      and cnt: "openedFilteringLogsPage ?s = openedFilteringLogsPage s" by simp_all
    from cnt assms(1) have act: "openedFilteringLogsPage ?s \<noteq> 0" by simp
    have "length (requestEvents e reqs) < REQUESTS_SIZE_PER_TAB"
      using len by (simp add: requestEvents_def)
    then show ?thesis
      using addHttpRequestEvent_active [OF act look, of e u f ty r i] cnt
      by (simp add: step evs pushEvent_room)
  qed
qed

text \<open>
  Claim C2. With a log page open, 1001 calls of \<^verbatim>\<open>addHttpRequestEvent\<close> for a known
  tab whose array of events is absent or empty leave an array of 1000 events whose
  element 0 is the event of the first call: the array is the first event followed by the
  third to the last, so the second event is the one that was dropped. In general, a push
  onto an array that already holds 1000 events or more keeps element 0 and drops
  element 1.
\<close>

theorem eviction_keeps_first:
  assumes "openedFilteringLogsPage s \<noteq> 0"
    and "getFilteringInfoByTabId s (tabId t) = Some ti"
    and "filteringEvents ti = None \<or> filteringEvents ti = Some []"
    and "length reqs = 1001"
  shows "(\<exists>ti' events.
            getFilteringInfoByTabId (calls e (requestCalls t reqs) s) (tabId t) = Some ti'
            \<and> filteringEvents ti' = Some events
            \<and> length events = 1000
            \<and> events ! 0 = requestEvents e reqs ! 0
            \<and> events = requestEvents e reqs ! 0 # drop 2 (requestEvents e reqs))
     \<and> (\<forall>events ev. 1000 \<le> length events \<longrightarrow>
            pushEvent (Some events) ev = events ! 0 # drop 2 (events @ [ev]))"
proof -
  from assms(4) obtain front q where reqs: "reqs = front @ [q]" and front: "length front = 1000"
    by (cases reqs rule: rev_cases) auto
  obtain u f ty r i where q: "q = (u, f, ty, r, i)" by (cases q)
  let ?s = "calls e (requestCalls t front) s"
  let ?ev = "httpRequestEvent e u f ty r i"
  from front have "front \<noteq> []" "length front \<le> REQUESTS_SIZE_PER_TAB"
    by (auto simp: REQUESTS_SIZE_PER_TAB_def)
  from requests_fill [OF assms(1) assms(2) [unfolded getFilteringInfoByTabId_def] assms(3) this]
  have look: "map_of (tabsInfoMap ?s) (tabId t)
        = Some (ti\<lparr>filteringEvents := Some (requestEvents e front)\<rparr>)"
    and cnt: "openedFilteringLogsPage ?s = openedFilteringLogsPage s" by simp_all
  from cnt assms(1) have act: "openedFilteringLogsPage ?s \<noteq> 0" by simp
  have step: "calls e (requestCalls t reqs) s = addHttpRequestEvent e t u f ty r i ?s"
    by (simp add: requestCalls_def calls_append q reqs)
  have evs: "requestEvents e reqs = requestEvents e front @ [?ev]"
    by (simp add: requestEvents_def q reqs)
  have lenf: "length (requestEvents e front) = 1000"
    using front by (simp add: requestEvents_def)
  then have full: "REQUESTS_SIZE_PER_TAB \<le> length (requestEvents e front)"
    by (simp add: REQUESTS_SIZE_PER_TAB_def)
  have first: "requestEvents e reqs ! 0 = requestEvents e front ! 0"
    using lenf by (simp add: evs nth_append)
  let ?events = "requestEvents e reqs ! 0 # drop 2 (requestEvents e reqs)"
  have "getFilteringInfoByTabId (calls e (requestCalls t reqs) s) (tabId t)
          = Some (ti\<lparr>filteringEvents := Some ?events\<rparr>)"
    using addHttpRequestEvent_active(1) [OF act look, of e u f ty r i]
    by (simp add: getFilteringInfoByTabId_def step pushEvent_overflow [OF full] first)
      (simp add: evs)
  moreover have "length ?events = 1000" using lenf by (simp add: evs)
  ultimately have "\<exists>ti' events.
            getFilteringInfoByTabId (calls e (requestCalls t reqs) s) (tabId t) = Some ti'
            \<and> filteringEvents ti' = Some events
            \<and> length events = 1000
            \<and> events ! 0 = requestEvents e reqs ! 0
            \<and> events = requestEvents e reqs ! 0 # drop 2 (requestEvents e reqs)"
    by simp
  moreover have "\<forall>events ev. 1000 \<le> length events \<longrightarrow>
            pushEvent (Some events) ev = events ! 0 # drop 2 (events @ [ev])"
    using pushEvent_overflow by (simp add: REQUESTS_SIZE_PER_TAB_def)
  ultimately show ?thesis by blast
qed

lemma sampleRequests_first:
  "0 < n \<Longrightarrow> requestEvents sampleEnv (sampleRequests n) ! 0 = sampleEvent 0"
  by (simp add: requestEvents_def sampleRequests_def sampleEvent_def)

lemma length_sampleRequests: "length (sampleRequests n) = n"
  by (simp add: sampleRequests_def)

theorem eviction_keeps_first_witness:
  "openedFilteringLogsPage (sampleState 1 None) \<noteq> 0
   \<and> getFilteringInfoByTabId (sampleState 1 None) (tabId sampleTab) = Some (sampleInfo None)
   \<and> filteringEvents (sampleInfo None) = None
   \<and> length (sampleRequests 1001) = 1001
   \<and> (\<exists>ti' events.
         getFilteringInfoByTabId
           (calls sampleEnv (requestCalls sampleTab (sampleRequests 1001)) (sampleState 1 None))
           (tabId sampleTab) = Some ti'
         \<and> filteringEvents ti' = Some events \<and> length events = 1000
         \<and> events ! 0 = sampleEvent 0)
   \<and> 1000 \<le> length (requestEvents sampleEnv (sampleRequests 1000))
   \<and> pushEvent (Some (requestEvents sampleEnv (sampleRequests 1000))) (sampleEvent 1000)
       = sampleEvent 0 # drop 2 (requestEvents sampleEnv (sampleRequests 1000) @ [sampleEvent 1000])"
proof -
  have active: "openedFilteringLogsPage (sampleState 1 None) \<noteq> 0"
    by (simp add: sampleState_def)
  have known: "getFilteringInfoByTabId (sampleState 1 None) (tabId sampleTab) = Some (sampleInfo None)"
    by (simp add: sampleState_def sampleTab_def getFilteringInfoByTabId_def)
  have absent: "filteringEvents (sampleInfo None) = None \<or> filteringEvents (sampleInfo None) = Some []"
    by (simp add: sampleInfo_def)
  have len: "length (sampleRequests 1001) = 1001" by (rule length_sampleRequests)
  have first: "requestEvents sampleEnv (sampleRequests 1001) ! 0 = sampleEvent 0"
    by (rule sampleRequests_first) simp
  have first': "requestEvents sampleEnv (sampleRequests 1000) ! 0 = sampleEvent 0"
    by (rule sampleRequests_first) simp
  have full: "1000 \<le> length (requestEvents sampleEnv (sampleRequests 1000))"
    by (simp add: requestEvents_def length_sampleRequests)
  note inst = eviction_keeps_first [OF active known absent len, of sampleEnv]
  from inst have a: "\<exists>ti' events.
         getFilteringInfoByTabId
           (calls sampleEnv (requestCalls sampleTab (sampleRequests 1001)) (sampleState 1 None))
           (tabId sampleTab) = Some ti'
         \<and> filteringEvents ti' = Some events \<and> length events = 1000
         \<and> events ! 0 = sampleEvent 0"
    unfolding first by blast
  from inst full have b: "pushEvent (Some (requestEvents sampleEnv (sampleRequests 1000))) (sampleEvent 1000)
       = sampleEvent 0 # drop 2 (requestEvents sampleEnv (sampleRequests 1000) @ [sampleEvent 1000])"
    unfolding first' [symmetric] by blast
  from active known absent len a full b show ?thesis
    by (simp add: sampleInfo_def)
qed

subsection \<open>Binding\<close>

lemma findEvent_latest:
  "i < n \<Longrightarrow> eventId (events ! i) = Some eid \<Longrightarrow>
   (\<forall>j. i < j \<and> j < n \<longrightarrow> eventId (events ! j) \<noteq> Some eid) \<Longrightarrow>
   findEvent events eid n = Some i"
proof (induction n)
  case 0
  then show ?case by simp
next
  case (Suc n)
  show ?case
  proof (cases "i = n")
    case True
    with Suc.prems show ?thesis by simp
  next
    case False
    with Suc.prems have "i < n" "eventId (events ! n) \<noteq> Some eid" by auto
    with Suc show ?thesis by simp
  qed
qed

lemma findEvent_none:
  "(\<forall>j < n. eventId (events ! j) \<noteq> Some eid) \<Longrightarrow> findEvent events eid n = None"
  by (induction n) simp_all

lemma bindToEvent_latest:
  assumes "openedFilteringLogsPage s \<noteq> 0"
    and "map_of (tabsInfoMap s) (tabId t) = Some ti"
    and "filteringEvents ti = Some events"
    and "i < length events" and "eventId (events ! i) = Some eid"
    and "\<forall>j. i < j \<and> j < length events \<longrightarrow> eventId (events ! j) \<noteq> Some eid"
  shows "bindToEvent change t eid s =
     s\<lparr>tabsInfoMap := replaceKey (tabId t)
           (ti\<lparr>filteringEvents := Some (events[i := change (events ! i)])\<rparr>) (tabsInfoMap s),
       notified := notified s @
           [LOG_EVENT_UPDATED (ti\<lparr>filteringEvents := Some (events[i := change (events ! i)])\<rparr>)
              (change (events ! i))]\<rparr>"
  using assms(1-3) findEvent_latest [OF assms(4-6)]
  by (simp add: bindToEvent_def Let_def notifyListeners_def storeTabInfo_def)

lemma bindToEvent_no_match:
  assumes "filteringEvents ti = Some events"
    and "map_of (tabsInfoMap s) (tabId t) = Some ti"
    and "\<forall>j < length events. eventId (events ! j) \<noteq> Some eid"
  shows "bindToEvent change t eid s = s"
  using assms(1,2) findEvent_none [OF assms(3)]
  by (simp add: bindToEvent_def)

text \<open>
  Claim C3. With a log page open and a known tab, let \<open>i\<close> be the greatest index of the
  tab's array of events whose event has the \<^verbatim>\<open>eventId\<close> looked for. Each of the three
  binding functions changes the event at index \<open>i\<close> and no other event, publishes exactly
  one \<^verbatim>\<open>LOG_EVENT_UPDATED\<close> notification, for that event, and leaves every other tab,
  the keys of the map and the counter as they were. So of several events with the same
  \<^verbatim>\<open>eventId\<close> only the one pushed last is changed.
\<close>

theorem binding_updates_latest_match:
  assumes "openedFilteringLogsPage s \<noteq> 0"
    and "getFilteringInfoByTabId s (tabId t) = Some ti"
    and "filteringEvents ti = Some events"
    and "i < length events" and "eventId (events ! i) = Some eid"
    and "\<forall>j. i < j \<and> j < length events \<longrightarrow> eventId (events ! j) \<noteq> Some eid"
  shows "\<forall>(bind, change) \<in> set
           [(bindRuleToHttpRequestEvent t rule eid, \<lambda>ev. addRuleToFilteringEvent ev rule),
            (bindReplaceRulesToHttpRequestEvent t rules eid,
               \<lambda>ev. addReplaceRulesToFilteringEvent ev rules),
            (bindStealthActionsToHttpRequestEvent t actions eid,
               \<lambda>ev. ev\<lparr>stealthActions := Some actions\<rparr>)].
         (let ev = change (events ! i);
              ti' = ti\<lparr>filteringEvents := Some (events[i := ev])\<rparr>
          in getFilteringInfoByTabId (bind s) (tabId t) = Some ti'
             \<and> (\<forall>k. k \<noteq> tabId t \<longrightarrow>
                   getFilteringInfoByTabId (bind s) k = getFilteringInfoByTabId s k)
             \<and> map fst (tabsInfoMap (bind s)) = map fst (tabsInfoMap s)
             \<and> notified (bind s) = notified s @ [LOG_EVENT_UPDATED ti' ev]
             \<and> openedFilteringLogsPage (bind s) = openedFilteringLogsPage s)"
proof -
  note look = assms(2) [unfolded getFilteringInfoByTabId_def]
  note eq = bindToEvent_latest [OF assms(1) look assms(3-6)]
  show ?thesis
    using look
    by (simp add: bindRuleToHttpRequestEvent_def bindReplaceRulesToHttpRequestEvent_def
        bindStealthActionsToHttpRequestEvent_def eq Let_def getFilteringInfoByTabId_def
        map_of_replaceKey)
qed

theorem binding_updates_latest_match_witness:
  "openedFilteringLogsPage (sampleState 1 (Some sampleEvents)) \<noteq> 0
   \<and> getFilteringInfoByTabId (sampleState 1 (Some sampleEvents)) (tabId sampleTab)
       = Some (sampleInfo (Some sampleEvents))
   \<and> 2 < length sampleEvents
   \<and> eventId (sampleEvents ! 0) = Some 1 \<and> eventId (sampleEvents ! 2) = Some 1
   \<and> getFilteringInfoByTabId
         (bindRuleToHttpRequestEvent sampleTab sampleRule 1 (sampleState 1 (Some sampleEvents)))
         (tabId sampleTab)
       = Some (sampleInfo (Some [sampleEvent 1, sampleEvent 2,
                 addRuleToFilteringEvent (sampleEvents ! 2) sampleRule]))
   \<and> notified
         (bindRuleToHttpRequestEvent sampleTab sampleRule 1 (sampleState 1 (Some sampleEvents)))
       = [LOG_EVENT_UPDATED
            (sampleInfo (Some [sampleEvent 1, sampleEvent 2,
                 addRuleToFilteringEvent (sampleEvents ! 2) sampleRule]))
            (addRuleToFilteringEvent (sampleEvents ! 2) sampleRule)]"
proof -
  have active: "openedFilteringLogsPage (sampleState 1 (Some sampleEvents)) \<noteq> 0"
    by (simp add: sampleState_def)
  have known: "getFilteringInfoByTabId (sampleState 1 (Some sampleEvents)) (tabId sampleTab)
       = Some (sampleInfo (Some sampleEvents))"
    by (simp add: sampleState_def sampleTab_def getFilteringInfoByTabId_def)
  have buf: "filteringEvents (sampleInfo (Some sampleEvents)) = Some sampleEvents"
    by (simp add: sampleInfo_def)
  have len: "2 < length sampleEvents" by (simp add: sampleEvents_def)
  have ids: "eventId (sampleEvents ! 0) = Some 1" "eventId (sampleEvents ! 2) = Some 1"
    by (simp_all add: sampleEvents_def sampleEvent_def httpRequestEvent_def emptyEvent_def)
  have "length sampleEvents = 3" by (simp add: sampleEvents_def)
  then have latest:
    "\<forall>j. 2 < j \<and> j < length sampleEvents \<longrightarrow> eventId (sampleEvents ! j) \<noteq> Some 1"
    by (simp only:) arith
  have upd: "(sampleInfo (Some sampleEvents))
      \<lparr>filteringEvents := Some (sampleEvents[2 := addRuleToFilteringEvent (sampleEvents ! 2) sampleRule])\<rparr>
      = sampleInfo (Some [sampleEvent 1, sampleEvent 2,
                 addRuleToFilteringEvent (sampleEvents ! 2) sampleRule])"
    by (simp add: sampleInfo_def sampleEvents_def)
  have quiet: "notified (sampleState 1 (Some sampleEvents)) = []"
    by (simp add: sampleState_def)
  from binding_updates_latest_match [OF active known buf len ids(2) latest,
      of sampleRule "[]" 0]
  have "getFilteringInfoByTabId
         (bindRuleToHttpRequestEvent sampleTab sampleRule 1 (sampleState 1 (Some sampleEvents)))
         (tabId sampleTab)
       = Some (sampleInfo (Some [sampleEvent 1, sampleEvent 2,
                 addRuleToFilteringEvent (sampleEvents ! 2) sampleRule]))
     \<and> notified
         (bindRuleToHttpRequestEvent sampleTab sampleRule 1 (sampleState 1 (Some sampleEvents)))
       = [LOG_EVENT_UPDATED
            (sampleInfo (Some [sampleEvent 1, sampleEvent 2,
                 addRuleToFilteringEvent (sampleEvents ! 2) sampleRule]))
            (addRuleToFilteringEvent (sampleEvents ! 2) sampleRule)]"
    by (simp add: Let_def upd quiet)
  with active known len ids show ?thesis by simp
qed

subsection \<open>Recording with and without a rule\<close>

lemma last_pushEvent: "pushEvent buf ev \<noteq> [] \<and> last (pushEvent buf ev) = ev"
proof -
  let ?xs = "(case buf of None \<Rightarrow> [] | Some es \<Rightarrow> es) @ [ev]"
  have "splice_1_1 ?xs \<noteq> [] \<and> last (splice_1_1 ?xs) = ev" if "REQUESTS_SIZE_PER_TAB < length ?xs"
  proof -
    from that have "2 < length ?xs" by (simp add: REQUESTS_SIZE_PER_TAB_def)
    then have "drop 2 ?xs \<noteq> []" and "last (drop 2 ?xs) = last ?xs"
      by (simp_all del: drop_append)
    then show ?thesis by (simp add: splice_1_1_def del: drop_append)
  qed
  then show ?thesis by (auto simp: pushEvent_def Let_def)
qed

lemma pushFilteringEvent_appended:
  "map_of (tabsInfoMap s) k = Some ti \<Longrightarrow> appended s k ti ev (pushFilteringEvent k ti ev s)"
  using last_pushEvent [of "filteringEvents ti" ev]
  by (simp add: appended_def pushFilteringEvent_def Let_def notifyListeners_def storeTabInfo_def
      getFilteringInfoByTabId_def map_of_replaceKey)

lemma appendProperties_spec: "appendProperties emptyObject r = specRuleSnapshot r"
  by (cases "rule_class r")
     (auto simp: appendProperties_def emptyObject_def specRuleSnapshot_def truthyString_def
        split: option.splits)

text \<open>
  Claim C9, as the code has it. With a log page open and a known tab,
  \<^verbatim>\<open>addHttpRequestEvent\<close> and \<^verbatim>\<open>addCookieEvent\<close> always push an event, which is the last
  of the tab's array and is published in one \<^verbatim>\<open>LOG_EVENT_ADDED\<close> notification. Given
  a rule, the event carries the snapshot of the specification (for a cookie event with
  \<^verbatim>\<open>isModifyingCookieRule\<close> set as well); given no rule, it carries no snapshot.
  \<^verbatim>\<open>addCosmeticEvent\<close> pushes such an event, with the snapshot, when it is given a rule;
  given no rule it returns at once and the state is unchanged.
\<close>

theorem recorded_rule_snapshot:
  assumes "openedFilteringLogsPage s \<noteq> 0"
    and "getFilteringInfoByTabId s (tabId t) = Some ti"
  shows "appended s (tabId t) ti (httpRequestEvent e reqUrl frUrl reqType rule eid)
           (addHttpRequestEvent e t reqUrl frUrl reqType rule eid s)
     \<and> requestRule (httpRequestEvent e reqUrl frUrl reqType rule eid)
         = map_option specRuleSnapshot rule
     \<and> appended s (tabId t) ti (cookieEvent cName cValue cDomain reqType rule modifying thirdParty)
           (addCookieEvent t cName cValue cDomain reqType rule modifying thirdParty s)
     \<and> requestRule (cookieEvent cName cValue cDomain reqType rule modifying thirdParty)
         = map_option (\<lambda>r. (specRuleSnapshot r)\<lparr>isModifyingCookieRule := Some modifying\<rparr>) rule
     \<and> (\<forall>r. appended s (tabId t) ti (addRuleToFilteringEvent (cosmeticEvent e el frUrl reqType) r)
               (addCosmeticEvent e t el frUrl reqType (Some r) s)
            \<and> requestRule (addRuleToFilteringEvent (cosmeticEvent e el frUrl reqType) r)
                = Some (specRuleSnapshot r))
     \<and> addCosmeticEvent e t el frUrl reqType None s = s"
proof -
  note look = assms(2) [unfolded getFilteringInfoByTabId_def]
  have "appended s (tabId t) ti (httpRequestEvent e reqUrl frUrl reqType rule eid)
           (addHttpRequestEvent e t reqUrl frUrl reqType rule eid s)"
    using assms(1) look by (simp add: addHttpRequestEvent_def pushFilteringEvent_appended)
  moreover have "requestRule (httpRequestEvent e reqUrl frUrl reqType rule eid)
         = map_option specRuleSnapshot rule"
    by (cases rule)
       (simp_all add: httpRequestEvent_def emptyEvent_def addRuleToFilteringEvent_def
          appendProperties_spec)
  moreover have "appended s (tabId t) ti
           (cookieEvent cName cValue cDomain reqType rule modifying thirdParty)
           (addCookieEvent t cName cValue cDomain reqType rule modifying thirdParty s)"
    using assms(1) look by (simp add: addCookieEvent_def pushFilteringEvent_appended)
  moreover have "requestRule (cookieEvent cName cValue cDomain reqType rule modifying thirdParty)
         = map_option (\<lambda>r. (specRuleSnapshot r)\<lparr>isModifyingCookieRule := Some modifying\<rparr>) rule"
    by (cases rule) (simp_all add: cookieEvent_def emptyEvent_def appendProperties_spec Let_def)
  moreover have "appended s (tabId t) ti (addRuleToFilteringEvent (cosmeticEvent e el frUrl reqType) r)
               (addCosmeticEvent e t el frUrl reqType (Some r) s)" for r
    using assms(1) look by (simp add: addCosmeticEvent_def pushFilteringEvent_appended)
  moreover have "requestRule (addRuleToFilteringEvent (cosmeticEvent e el frUrl reqType) r)
                = Some (specRuleSnapshot r)" for r
    by (simp add: addRuleToFilteringEvent_def appendProperties_spec)
  moreover have "addCosmeticEvent e t el frUrl reqType None s = s"
    by (simp add: addCosmeticEvent_def)
  ultimately show ?thesis by blast
qed

theorem recorded_rule_snapshot_witness:
  "openedFilteringLogsPage (sampleState 1 None) \<noteq> 0
   \<and> getFilteringInfoByTabId (sampleState 1 None) (tabId sampleTab) = Some (sampleInfo None)
   \<and> appended (sampleState 1 None) (tabId sampleTab) (sampleInfo None)
         (httpRequestEvent sampleEnv ''http://ads.example/a.js'' ''http://news.example/''
            ''SCRIPT'' (Some sampleRule) 1)
         (addHttpRequestEvent sampleEnv sampleTab ''http://ads.example/a.js''
            ''http://news.example/'' ''SCRIPT'' (Some sampleRule) 1 (sampleState 1 None))
   \<and> requestRule (httpRequestEvent sampleEnv ''http://ads.example/a.js''
         ''http://news.example/'' ''SCRIPT'' (Some sampleRule) 1)
       = Some (specRuleSnapshot sampleRule)
   \<and> filterId (specRuleSnapshot sampleRule) = Some 2
   \<and> whiteListRule (specRuleSnapshot sampleRule) = Some False
   \<and> requestRule (cookieEvent ''sid'' ''42'' ''news.example'' ''COOKIE'' None True False) = None"
proof -
  have active: "openedFilteringLogsPage (sampleState 1 None) \<noteq> 0"
    by (simp add: sampleState_def)
  have known: "getFilteringInfoByTabId (sampleState 1 None) (tabId sampleTab) = Some (sampleInfo None)"
    by (simp add: sampleState_def sampleTab_def getFilteringInfoByTabId_def)
  have snap: "filterId (specRuleSnapshot sampleRule) = Some 2"
    "whiteListRule (specRuleSnapshot sampleRule) = Some False"
    by (simp_all add: specRuleSnapshot_def sampleRule_def)
  from recorded_rule_snapshot [OF active known, where e = sampleEnv
      and reqUrl = "''http://ads.example/a.js''" and frUrl = "''http://news.example/''"
      and reqType = "''SCRIPT''" and rule = "Some sampleRule" and eid = 1]
    recorded_rule_snapshot [OF active known, where cName = "''sid''" and cValue = "''42''"
      and cDomain = "''news.example''" and reqType = "''COOKIE''" and rule = None
      and modifying = True and thirdParty = False]
    active known snap
  show ?thesis by simp
qed

text \<open>
  Claim C9, as the specification words it, fails for cosmetic events: with a log page
  open and a known tab, \<^verbatim>\<open>addCosmeticEvent\<close> without a rule records nothing.
\<close>

theorem cosmetic_without_rule_not_recorded:
  "openedFilteringLogsPage (sampleState 1 None) \<noteq> 0
   \<and> getFilteringInfoByTabId (sampleState 1 None) (tabId sampleTab) = Some (sampleInfo None)
   \<and> addCosmeticEvent sampleEnv sampleTab (ElementString ''div.banner'') ''http://news.example/''
        ''DOCUMENT'' None (sampleState 1 None) = sampleState 1 None"
  by (simp add: sampleState_def sampleTab_def getFilteringInfoByTabId_def addCosmeticEvent_def)

subsection \<open>The background tab\<close>

lemma tabsInfoMap_notifyListeners [simp]: "tabsInfoMap (notifyListeners n s) = tabsInfoMap s"
  by (simp add: notifyListeners_def)

lemma tabsInfoMap_updateTabInfo:
  "tabsInfoMap (snd (updateTabInfo e t s)) = setKey (tabId t) (fst (updateTabInfo e t s)) (tabsInfoMap s)"
  by (simp add: updateTabInfo_def Let_def)

lemma lookup_addTab:
  "k \<noteq> tabId t \<Longrightarrow> map_of (tabsInfoMap (addTab e t s)) k = map_of (tabsInfoMap s) k"
  by (simp add: addTab_def split_beta tabsInfoMap_updateTabInfo)

lemma lookup_updateTab:
  "k \<noteq> tabId t \<Longrightarrow> map_of (tabsInfoMap (updateTab e t s)) k = map_of (tabsInfoMap s) k"
  by (simp add: updateTab_def split_beta tabsInfoMap_updateTabInfo)

lemma lookup_removeTabById:
  "k \<noteq> k' \<Longrightarrow> map_of (tabsInfoMap (removeTabById e k' s)) k = map_of (tabsInfoMap s) k"
  by (simp add: removeTabById_def split: option.splits)

lemma background_addTab:
  "map_of (tabsInfoMap (addTab e t s)) (backgroundTabId e) = map_of (tabsInfoMap s) (backgroundTabId e)"
  by (cases "tabId t = backgroundTabId e") (simp_all add: lookup_addTab, simp add: addTab_def)

lemma background_updateTab:
  "map_of (tabsInfoMap (updateTab e t s)) (backgroundTabId e) = map_of (tabsInfoMap s) (backgroundTabId e)"
  by (cases "tabId t = backgroundTabId e") (simp_all add: lookup_updateTab, simp add: updateTab_def)

lemma background_removeTabById:
  "map_of (tabsInfoMap (removeTabById e k s)) (backgroundTabId e) = map_of (tabsInfoMap s) (backgroundTabId e)"
  by (cases "k = backgroundTabId e") (simp_all add: lookup_removeTabById, simp add: removeTabById_def)

lemma background_syncOpenTabs:
  "map_of (tabsInfoMap (snd (syncOpenTabs e tabs ids s))) (backgroundTabId e)
     = map_of (tabsInfoMap s) (backgroundTabId e)"
  by (induction tabs arbitrary: ids s)
     (simp_all add: Let_def background_addTab background_updateTab split: option.splits)

lemma background_removeTabs:
  "map_of (tabsInfoMap (removeTabs e ks s)) (backgroundTabId e) = map_of (tabsInfoMap s) (backgroundTabId e)"
  by (induction ks arbitrary: s) (simp_all add: background_removeTabById)

lemma background_synchronizeOpenTabs:
  "map_of (tabsInfoMap (synchronizeOpenTabs e tabs s)) (backgroundTabId e)
     = map_of (tabsInfoMap s) (backgroundTabId e)"
  by (simp add: synchronizeOpenTabs_def split_beta background_removeTabs background_syncOpenTabs)

lemma background_registryCalls:
  "list_all registryCall cs \<Longrightarrow>
   map_of (tabsInfoMap (calls e cs s)) (backgroundTabId e) = map_of (tabsInfoMap s) (backgroundTabId e)"
proof (induction cs arbitrary: s)
  case Nil
  then show ?case by simp
next
  case (Cons c cs)
  from Cons.prems have "registryCall c" by simp
  then have "map_of (tabsInfoMap (call e c s)) (backgroundTabId e)
      = map_of (tabsInfoMap s) (backgroundTabId e)"
    by (cases c)
       (simp_all add: background_addTab background_updateTab background_removeTabById
          background_synchronizeOpenTabs)
  with Cons show ?case by simp
qed

text \<open>
  Claim C8. For a tab with the id of the background tab, \<^verbatim>\<open>addTab\<close> and \<^verbatim>\<open>updateTab\<close>
  return the state unchanged, and so does \<^verbatim>\<open>removeTabById\<close> for that id: the entry of
  the map is untouched and nothing is notified. Over any sequence of tab additions,
  updates, removals and synchronizations, what \<^verbatim>\<open>getFilteringInfoByTabId\<close> returns for
  the background id never changes, so a background tab that is present stays.
\<close>

theorem background_tab_exempt:
  "(tabId t = backgroundTabId e \<longrightarrow> addTab e t s = s \<and> updateTab e t s = s)
   \<and> removeTabById e (backgroundTabId e) s = s
   \<and> (list_all registryCall cs \<longrightarrow>
        getFilteringInfoByTabId (calls e cs s) (backgroundTabId e)
          = getFilteringInfoByTabId s (backgroundTabId e))"
  by (simp add: addTab_def updateTab_def removeTabById_def getFilteringInfoByTabId_def
      background_registryCalls)

theorem background_tab_exempt_witness:
  "tabId sampleBackground = backgroundTabId sampleEnv
   \<and> addTab sampleEnv sampleBackground (sampleState 1 None) = sampleState 1 None
   \<and> updateTab sampleEnv sampleBackground (sampleState 1 None) = sampleState 1 None
   \<and> list_all registryCall sampleRegistryCalls
   \<and> getFilteringInfoByTabId (calls sampleEnv sampleRegistryCalls (sampleState 1 None))
        (backgroundTabId sampleEnv) = Some (backgroundTab sampleEnv)"
proof -
  have bg: "tabId sampleBackground = backgroundTabId sampleEnv"
    by (simp add: sampleBackground_def sampleEnv_def)
  have reg: "list_all registryCall sampleRegistryCalls"
    by (simp add: sampleRegistryCalls_def)
  have before: "getFilteringInfoByTabId (sampleState 1 None) (backgroundTabId sampleEnv)
      = Some (backgroundTab sampleEnv)"
    by (simp add: getFilteringInfoByTabId_def sampleState_def sampleEnv_def)
  from background_tab_exempt [of sampleBackground sampleEnv "sampleState 1 None" sampleRegistryCalls]
    bg reg before
  show ?thesis by simp
qed

subsection \<open>Synchronizing twice\<close>

lemma known_key: "map_of m k \<noteq> None \<longleftrightarrow> k \<in> set (map fst m)"
  by (simp add: map_of_eq_None_iff)

lemma keys_updateTabInfo:
  "set (map fst (tabsInfoMap (snd (updateTabInfo e t s))))
     = insert (tabId t) (set (map fst (tabsInfoMap s)))"
  by (simp only: tabsInfoMap_updateTabInfo keys_setKey)

lemma keys_updateTabInfo_known:
  "tabId t \<in> set (map fst (tabsInfoMap s)) \<Longrightarrow>
   map fst (tabsInfoMap (snd (updateTabInfo e t s))) = map fst (tabsInfoMap s)"
proof -
  assume "tabId t \<in> set (map fst (tabsInfoMap s))"
  then obtain ti where "map_of (tabsInfoMap s) (tabId t) = Some ti"
    using known_key [of "tabsInfoMap s" "tabId t"] by auto
  then show ?thesis by (simp add: tabsInfoMap_updateTabInfo setKey_def)
qed

lemma distinct_updateTabInfo:
  "distinct (map fst (tabsInfoMap s)) \<Longrightarrow> distinct (map fst (tabsInfoMap (snd (updateTabInfo e t s))))"
  by (simp only: tabsInfoMap_updateTabInfo distinct_setKey)

lemma info_tabId_updateTabInfo: "info_tabId (fst (updateTabInfo e t s)) = tabId t"
  by (simp add: updateTabInfo_def Let_def split: option.splits)

lemma keys_addTab:
  "set (map fst (tabsInfoMap (addTab e t s)))
     = set (map fst (tabsInfoMap s)) \<union> ({tabId t} - {backgroundTabId e})"
  using keys_updateTabInfo [of e t s] by (auto simp: addTab_def split_beta)

lemma keys_updateTab:
  "set (map fst (tabsInfoMap (updateTab e t s)))
     = set (map fst (tabsInfoMap s)) \<union> ({tabId t} - {backgroundTabId e})"
  using keys_updateTabInfo [of e t s] by (auto simp: updateTab_def split_beta)

lemma distinct_addTab:
  "distinct (map fst (tabsInfoMap s)) \<Longrightarrow> distinct (map fst (tabsInfoMap (addTab e t s)))"
  using distinct_updateTabInfo [of s e t] by (simp add: addTab_def split_beta)

lemma distinct_updateTab:
  "distinct (map fst (tabsInfoMap s)) \<Longrightarrow> distinct (map fst (tabsInfoMap (updateTab e t s)))"
  using distinct_updateTabInfo [of s e t] by (simp add: updateTab_def split_beta)

lemma keys_removeTabById:
  "map fst (tabsInfoMap (removeTabById e k s))
     = (if k = backgroundTabId e then map fst (tabsInfoMap s)
        else removeAll k (map fst (tabsInfoMap s)))"
  by (simp add: removeTabById_def keys_deleteKey split: option.splits)

lemma ids_syncOpenTabs:
  "distinct ids \<Longrightarrow> set (fst (syncOpenTabs e tabs ids s)) = set ids - tabId ` set tabs"
  by (induction tabs arbitrary: ids s) (auto simp: Let_def)

lemma keys_syncOpenTabs:
  "set (map fst (tabsInfoMap (snd (syncOpenTabs e tabs ids s))))
     = set (map fst (tabsInfoMap s)) \<union> (tabId ` set tabs - {backgroundTabId e})"
proof (induction tabs arbitrary: ids s)
  case Nil
  then show ?case by simp
next
  case (Cons t tabs)
  let ?s = "case map_of (tabsInfoMap s) (tabId t) of None \<Rightarrow> addTab e t s
            | Some _ \<Rightarrow> updateTab e t s"
  have "set (map fst (tabsInfoMap ?s))
      = set (map fst (tabsInfoMap s)) \<union> ({tabId t} - {backgroundTabId e})"
    by (cases "map_of (tabsInfoMap s) (tabId t)") (simp_all only: option.case keys_addTab keys_updateTab)
  then show ?case
    using Cons.IH [of "remove1 (tabId t) ids" ?s] by (simp only: syncOpenTabs.simps Let_def) auto
qed

lemma distinct_syncOpenTabs:
  "distinct (map fst (tabsInfoMap s)) \<Longrightarrow>
   distinct (map fst (tabsInfoMap (snd (syncOpenTabs e tabs ids s))))"
  by (induction tabs arbitrary: ids s)
     (auto simp: Let_def distinct_addTab distinct_updateTab split: option.splits)

lemma keys_removeTabs:
  "set (map fst (tabsInfoMap (removeTabs e ks s)))
     = set (map fst (tabsInfoMap s)) - (set ks - {backgroundTabId e})"
  by (induction ks arbitrary: s) (auto simp: keys_removeTabById simp del: set_map)

lemma distinct_removeTabs:
  "distinct (map fst (tabsInfoMap s)) \<Longrightarrow> distinct (map fst (tabsInfoMap (removeTabs e ks s)))"
  by (induction ks arbitrary: s) (simp_all add: keys_removeTabById distinct_removeAll)

lemma removeTabs_background: "set ks \<subseteq> {backgroundTabId e} \<Longrightarrow> removeTabs e ks s = s"
  by (induction ks arbitrary: s) (simp_all add: removeTabById_def)

lemma syncOpenTabs_known:
  assumes "\<forall>t \<in> set tabs. tabId t \<noteq> backgroundTabId e \<longrightarrow> tabId t \<in> set (map fst (tabsInfoMap s))"
  shows "map fst (tabsInfoMap (snd (syncOpenTabs e tabs ids s))) = map fst (tabsInfoMap s)
     \<and> (\<exists>new. notified (snd (syncOpenTabs e tabs ids s)) = notified s @ new
          \<and> map tabUpdateId new
              = map (\<lambda>t. Some (tabId t)) (filter (\<lambda>t. tabId t \<noteq> backgroundTabId e) tabs))"
  using assms
proof (induction tabs arbitrary: ids s)
  case Nil
  then show ?case by simp
next
  case (Cons t tabs)
  let ?s = "case map_of (tabsInfoMap s) (tabId t) of None \<Rightarrow> addTab e t s
            | Some _ \<Rightarrow> updateTab e t s"
  have step: "syncOpenTabs e (t # tabs) ids s = syncOpenTabs e tabs (remove1 (tabId t) ids) ?s"
    by (simp add: Let_def)
  show ?case
  proof (cases "tabId t = backgroundTabId e")
    case True
    then have same: "?s = s" by (simp add: addTab_def updateTab_def split: option.splits)
    from Cons.prems have
      "\<forall>t \<in> set tabs. tabId t \<noteq> backgroundTabId e \<longrightarrow> tabId t \<in> set (map fst (tabsInfoMap s))"
      by simp
    moreover have r: "syncOpenTabs e (t # tabs) ids s = syncOpenTabs e tabs (remove1 (tabId t) ids) s"
      by (simp only: step same)
    ultimately show ?thesis
      unfolding r using Cons.IH [of s "remove1 (tabId t) ids"] True by simp
  next
    case False
    with Cons.prems have known: "tabId t \<in> set (map fst (tabsInfoMap s))" by simp
    then obtain ti where "map_of (tabsInfoMap s) (tabId t) = Some ti"
      using known_key [of "tabsInfoMap s" "tabId t"] by auto
    then have upd: "?s = updateTab e t s" by simp
    have keys: "map fst (tabsInfoMap ?s) = map fst (tabsInfoMap s)"
      using False keys_updateTabInfo_known [OF known, of e]
      by (simp add: upd updateTab_def split_beta)
    have note1: "notified ?s = notified s @ [TAB_UPDATE (fst (updateTabInfo e t s))]"
      using False
      by (simp add: upd updateTab_def split_beta notifyListeners_def updateTabInfo_def Let_def)
    from Cons.prems keys have
      "\<forall>t \<in> set tabs. tabId t \<noteq> backgroundTabId e \<longrightarrow> tabId t \<in> set (map fst (tabsInfoMap ?s))"
      by simp
    from Cons.IH [OF this, of "remove1 (tabId t) ids"]
    obtain new where
      k: "map fst (tabsInfoMap (snd (syncOpenTabs e tabs (remove1 (tabId t) ids) ?s)))
           = map fst (tabsInfoMap ?s)"
      and n: "notified (snd (syncOpenTabs e tabs (remove1 (tabId t) ids) ?s)) = notified ?s @ new"
      and u: "map tabUpdateId new
              = map (\<lambda>t. Some (tabId t)) (filter (\<lambda>t. tabId t \<noteq> backgroundTabId e) tabs)"
      by blast
    have "notified (snd (syncOpenTabs e (t # tabs) ids s))
          = notified s @ (TAB_UPDATE (fst (updateTabInfo e t s)) # new)"
      by (simp only: step n note1) simp
    moreover have "map tabUpdateId (TAB_UPDATE (fst (updateTabInfo e t s)) # new)
        = map (\<lambda>t. Some (tabId t)) (filter (\<lambda>t. tabId t \<noteq> backgroundTabId e) (t # tabs))"
      using False u by (simp add: info_tabId_updateTabInfo)
    moreover have "map fst (tabsInfoMap (snd (syncOpenTabs e (t # tabs) ids s)))
        = map fst (tabsInfoMap s)"
      by (simp only: step k keys)
    ultimately show ?thesis by blast
  qed
qed

lemma tabUpdateId_only:
  "map tabUpdateId new = map (\<lambda>t. Some (f t)) ts \<Longrightarrow>
   \<not> list_ex isTabAdded new \<and> \<not> list_ex isTabClose new"
proof (induction new arbitrary: ts)
  case Nil
  then show ?case by simp
next
  case (Cons n new)
  then obtain t ts' where ts: "ts = t # ts'" by (cases ts) auto
  with Cons.prems have "tabUpdateId n = Some (f t)"
    and "map tabUpdateId new = map (\<lambda>t. Some (f t)) ts'" by simp_all
  with Cons.IH show ?case by (cases n) auto
qed

lemma keyToInt_decimal: "\<forall>k \<in> set ks. decimalKey k \<Longrightarrow> map (keyToInt e) ks = ks"
  by (induction ks) (simp_all add: keyToInt_def)

lemma keys_read_back:
  "\<forall>k \<in> set (map fst m). decimalKey k \<Longrightarrow> map (\<lambda>p. keyToInt e (fst p)) m = map fst m"
  using keyToInt_decimal [of "map fst m" e] by (simp add: comp_def)

lemma synchronizeOpenTabs_decimal:
  assumes "\<forall>k \<in> set (map fst (tabsInfoMap s)). decimalKey k"
  shows "synchronizeOpenTabs e tabs s =
     removeTabs e (fst (syncOpenTabs e tabs (map fst (tabsInfoMap s)) s))
       (snd (syncOpenTabs e tabs (map fst (tabsInfoMap s)) s))"
  by (simp add: synchronizeOpenTabs_def split_beta keys_read_back [OF assms])

text \<open>
  Claim C7. Take a state whose map holds each key once (as a JavaScript object does) and
  a list of open tabs, all ids being integers that are written as decimal numerals, as
  the tab ids of the extension API are. Run \<^verbatim>\<open>synchronizeOpenTabs\<close> twice in a row on
  that list. The second run publishes no \<^verbatim>\<open>TAB_ADDED\<close> and no \<^verbatim>\<open>TAB_CLOSE\<close>
  notification: what it publishes is exactly one \<^verbatim>\<open>TAB_UPDATE\<close> notification for each
  open tab other than the background tab, in the order of the list, and it leaves the
  keys of the map as the first run left them.
\<close>

theorem synchronize_twice:
  assumes "distinct (map fst (tabsInfoMap s))"
    and "\<forall>k \<in> set (map fst (tabsInfoMap s)). decimalKey k"
    and "\<forall>t \<in> set tabs. decimalKey (tabId t)"
  shows "let s1 = synchronizeOpenTabs e tabs s;
             s2 = synchronizeOpenTabs e tabs s1;
             new = drop (length (notified s1)) (notified s2)
         in notified s2 = notified s1 @ new
            \<and> \<not> list_ex isTabAdded new \<and> \<not> list_ex isTabClose new
            \<and> map tabUpdateId new
                = map (\<lambda>t. Some (tabId t)) (filter (\<lambda>t. tabId t \<noteq> backgroundTabId e) tabs)
            \<and> map fst (tabsInfoMap s2) = map fst (tabsInfoMap s1)"
proof -
  let ?bg = "backgroundTabId e"
  let ?T = "tabId ` set tabs"
  let ?K = "set (map fst (tabsInfoMap s))"
  let ?l1 = "syncOpenTabs e tabs (map fst (tabsInfoMap s)) s"
  let ?s1 = "synchronizeOpenTabs e tabs s"
  have s1: "?s1 = removeTabs e (fst ?l1) (snd ?l1)"
    by (rule synchronizeOpenTabs_decimal [OF assms(2)])
  have ids1: "set (fst ?l1) = ?K - ?T"
    using ids_syncOpenTabs [OF assms(1), of e tabs s] by simp
  have keys1: "set (map fst (tabsInfoMap ?s1)) = (?K \<union> (?T - {?bg})) - ((?K - ?T) - {?bg})"
    by (simp only: s1 keys_removeTabs keys_syncOpenTabs ids1)
  have dist1: "distinct (map fst (tabsInfoMap ?s1))"
    by (simp only: s1 distinct_removeTabs distinct_syncOpenTabs assms(1))
  have dec1: "\<forall>k \<in> set (map fst (tabsInfoMap ?s1)). decimalKey k"
    unfolding keys1 using assms(2,3) by auto
  have present: "\<forall>t \<in> set tabs. tabId t \<noteq> ?bg \<longrightarrow> tabId t \<in> set (map fst (tabsInfoMap ?s1))"
    unfolding keys1 by auto
  have only: "set (map fst (tabsInfoMap ?s1)) - ?T \<subseteq> {?bg}"
    unfolding keys1 by auto
  let ?l2 = "syncOpenTabs e tabs (map fst (tabsInfoMap ?s1)) ?s1"
  let ?s2 = "synchronizeOpenTabs e tabs ?s1"
  have "set (fst ?l2) \<subseteq> {?bg}"
    using ids_syncOpenTabs [OF dist1, of e tabs ?s1] only by simp
  then have "removeTabs e (fst ?l2) (snd ?l2) = snd ?l2"
    by (rule removeTabs_background)
  then have s2: "?s2 = snd ?l2"
    by (simp only: synchronizeOpenTabs_decimal [OF dec1])
  from syncOpenTabs_known [OF present, of "map fst (tabsInfoMap ?s1)"]
  obtain new where
    k: "map fst (tabsInfoMap ?s2) = map fst (tabsInfoMap ?s1)"
    and n: "notified ?s2 = notified ?s1 @ new"
    and u: "map tabUpdateId new = map (\<lambda>t. Some (tabId t)) (filter (\<lambda>t. tabId t \<noteq> ?bg) tabs)"
    unfolding s2 by blast
  from n have d: "drop (length (notified ?s1)) (notified ?s2) = new" by simp
  from tabUpdateId_only [OF u] k n u show ?thesis
    unfolding Let_def d by blast
qed

lemma sample_first_sync:
  "list_ex isTabAdded (notified (synchronizeOpenTabs sampleEnv sampleOpenTabs (sampleState 1 None)))"
  by (simp add: synchronizeOpenTabs_def sampleOpenTabs_def sampleState_def sampleTab_def
      sampleBackground_def sampleEnv_def sampleInfo_def backgroundTab_def addTab_def updateTab_def
      updateTabInfo_def setKey_def isArrayIndex_def notifyListeners_def removeTabById_def
      deleteKey_def extensionFlag_def keyToInt_def decimalKey_def Let_def)

theorem synchronize_twice_witness:
  "distinct (map fst (tabsInfoMap (sampleState 1 None)))
   \<and> list_all decimalKey (map fst (tabsInfoMap (sampleState 1 None)))
   \<and> list_all (\<lambda>t. decimalKey (tabId t)) sampleOpenTabs
   \<and> list_ex isTabAdded (notified (synchronizeOpenTabs sampleEnv sampleOpenTabs (sampleState 1 None)))
   \<and> map tabUpdateId
        (drop (length (notified (synchronizeOpenTabs sampleEnv sampleOpenTabs (sampleState 1 None))))
           (notified (synchronizeOpenTabs sampleEnv sampleOpenTabs
              (synchronizeOpenTabs sampleEnv sampleOpenTabs (sampleState 1 None)))))
       = [Some 7, Some 9]
   \<and> \<not> list_ex isTabAdded
        (drop (length (notified (synchronizeOpenTabs sampleEnv sampleOpenTabs (sampleState 1 None))))
           (notified (synchronizeOpenTabs sampleEnv sampleOpenTabs
              (synchronizeOpenTabs sampleEnv sampleOpenTabs (sampleState 1 None)))))
   \<and> \<not> list_ex isTabClose
        (drop (length (notified (synchronizeOpenTabs sampleEnv sampleOpenTabs (sampleState 1 None))))
           (notified (synchronizeOpenTabs sampleEnv sampleOpenTabs
              (synchronizeOpenTabs sampleEnv sampleOpenTabs (sampleState 1 None)))))"
proof -
  have keys: "distinct (map fst (tabsInfoMap (sampleState 1 None)))"
    by (simp add: sampleState_def)
  have dec: "\<forall>k \<in> set (map fst (tabsInfoMap (sampleState 1 None))). decimalKey k"
    by (simp add: sampleState_def decimalKey_def)
  have open_dec: "\<forall>t \<in> set sampleOpenTabs. decimalKey (tabId t)"
    by (simp add: sampleOpenTabs_def sampleTab_def sampleBackground_def decimalKey_def)
  have live: "map (\<lambda>t. Some (tabId t))
      (filter (\<lambda>t. tabId t \<noteq> backgroundTabId sampleEnv) sampleOpenTabs) = [Some 7, Some 9]"
    by (simp add: sampleOpenTabs_def sampleTab_def sampleBackground_def sampleEnv_def)
  from dec have dec': "list_all decimalKey (map fst (tabsInfoMap (sampleState 1 None)))"
    by (simp only: list_all_iff)
  from open_dec have open_dec': "list_all (\<lambda>t. decimalKey (tabId t)) sampleOpenTabs"
    by (simp only: list_all_iff)
  from synchronize_twice [OF keys dec open_dec, of sampleEnv] keys dec' open_dec' sample_first_sync
  show ?thesis
    unfolding Let_def live by blast
qed

end
